theory Spec2Isabelle
  imports Main "HOL-Library.Sublist" "HOL-Library.AList"
begin

section \<open>Python values and XML elements\<close>

text \<open>
  The values that travel through the codec and the gateway client of
  \<^verbatim>\<open>dns_schlundtech.py\<close>.  A \<^verbatim>\<open>dict\<close> is an association list in insertion
  order (Python keeps it; its keys are unique).  A float is identified by the text
  \<^verbatim>\<open>str()\<close> gives it, so is any object of a type the marshaller has no branch for
  (\<^verbatim>\<open>format()\<close> shows that text in the error message).  \<open>PObj\<close> is an object that
  has a \<^verbatim>\<open>__dict__\<close>, given by that attribute dictionary.
\<close>

datatype pyval =
    PNone
  | PStr string
  | PInt int
  | PFloat string
  | PList "pyval list"
  | PDict "(string \<times> pyval) list"
  | PObj "(string \<times> pyval) list"
  | POther string

type_synonym pydict = "(string \<times> pyval) list"

text \<open>
  An \<^verbatim>\<open>xml.etree.ElementTree.Element\<close>: its tag, its \<^verbatim>\<open>text\<close> (\<open>None\<close> when the
  element has no character data before its first child) and its children in document
  order (\<open>etext\<close> stands for the attribute \<^verbatim>\<open>text\<close>).  Attributes and tails are
  never read or written by the program.
\<close>

datatype xml = Element (tag: string) (etext: "string option") (children: "xml list")

text \<open>
  The exceptions that leave the program.  \<^verbatim>\<open>errors.PluginError\<close> carries its message;
  where the source ends the message with a line break and \<^verbatim>\<open>repr(response)\<close>, the
  second component holds that response (\<^verbatim>\<open>repr\<close> is not expanded).
  \<^verbatim>\<open>NotImplementedError\<close> carries the tag and the text of the value of the message
  \<^verbatim>\<open>Unable to serialize tag=value\<close>.  \<^verbatim>\<open>KeyError\<close> names the missing key;
  \<^verbatim>\<open>ParseError\<close> is what \<^verbatim>\<open>Et.fromstring\<close> raises.
\<close>

datatype error =
    PluginError string "pyval option"
  | KeyError string
  | TypeError
  | NotImplementedError string string
  | ParseError

section \<open>Python primitives\<close>

text \<open>\<^verbatim>\<open>str(n)\<close> for an \<^verbatim>\<open>int\<close>: the decimal digits, with a minus sign below zero.\<close>

definition digit_char :: "nat \<Rightarrow> char" where
  "digit_char d = ''0123456789'' ! d"

function str_nat :: "nat \<Rightarrow> string" where
  "str_nat n = (if n < 10 then [digit_char n] else str_nat (n div 10) @ [digit_char (n mod 10)])"
  by pat_completeness auto
termination
  by (relation "measure (\<lambda>n. n)") auto

definition str_int :: "int \<Rightarrow> string" where
  "str_int i = (if i < 0 then CHR ''-'' # str_nat (nat (- i)) else str_nat (nat i))"

text \<open>
  \<^verbatim>\<open>s.replace(old, new)\<close>: every occurrence of \<open>old\<close> found scanning from the left,
  without overlaps.  With an empty \<open>old\<close> Python puts \<open>new\<close> around every character.
\<close>

function py_replace :: "string \<Rightarrow> string \<Rightarrow> string \<Rightarrow> string" where
  "py_replace s old new =
     (if old = [] then new @ concat (map (\<lambda>c. c # new) s)
      else if s = [] then []
      else if prefix old s then new @ py_replace (drop (length old) s) old new
      else hd s # py_replace (tl s) old new)"
  by pat_completeness auto
termination
  by (relation "measure (\<lambda>(s, old, new). length s)") auto

text \<open>\<^verbatim>\<open>v[k]\<close> for a string key: only a dict can be indexed by a string.\<close>

fun py_getitem :: "pyval \<Rightarrow> string \<Rightarrow> error + pyval" where
  "py_getitem (PDict d) k = (case map_of d k of Some v \<Rightarrow> Inr v | None \<Rightarrow> Inl (KeyError k))"
| "py_getitem _ k = Inl TypeError"

text \<open>\<^verbatim>\<open>v[k] = x\<close> for a string key.\<close>

fun py_setitem :: "pyval \<Rightarrow> string \<Rightarrow> pyval \<Rightarrow> error + pyval" where
  "py_setitem (PDict d) k x = Inr (PDict (AList.update k x d))"
| "py_setitem _ k x = Inl TypeError"

text \<open>
  \<^verbatim>\<open>k in v\<close> for a string \<open>k\<close>: a key of a dict, a substring of a string, an item of
  a list; \<^verbatim>\<open>None\<close> and numbers are not iterable.  The client applies it to values
  that \<open>unmarshal\<close> returned only, which are \<^verbatim>\<open>None\<close>, strings, lists and dicts.
\<close>

fun py_contains :: "pyval \<Rightarrow> string \<Rightarrow> error + bool" where
  "py_contains (PDict d) k = Inr (k \<in> set (map fst d))"
| "py_contains (PStr s) k = Inr (sublist k s)"
| "py_contains (PList xs) k = Inr (PStr k \<in> set xs)"
| "py_contains _ k = Inl TypeError"

text \<open>
  The truth value of \<^verbatim>\<open>if v\<close>.  Tested on results of \<open>unmarshal\<close> only; an object
  without \<^verbatim>\<open>__bool__\<close> and \<^verbatim>\<open>__len__\<close> is true.
\<close>

fun py_truthy :: "pyval \<Rightarrow> bool" where
  "py_truthy PNone = False"
| "py_truthy (PStr s) = (s \<noteq> [])"
| "py_truthy (PInt i) = (i \<noteq> 0)"
| "py_truthy (PFloat s) = (s \<noteq> ''0.0'' \<and> s \<noteq> ''-0.0'')"
| "py_truthy (PList xs) = (xs \<noteq> [])"
| "py_truthy (PDict d) = (d \<noteq> [])"
| "py_truthy (PObj d) = True"
| "py_truthy (POther s) = True"

text \<open>\<^verbatim>\<open>s + v\<close> for a string \<open>s\<close>: defined when \<open>v\<close> is a string.\<close>

fun py_concat :: "string \<Rightarrow> pyval \<Rightarrow> error + string" where
  "py_concat s (PStr t) = Inr (s @ t)"
| "py_concat s _ = Inl TypeError"

section \<open>The XML codec (class \_XML)\<close>

text \<open>
  \<^verbatim>\<open>_marshal_value(e, tag, value)\<close> appends elements to \<open>e\<close>; the model returns
  the elements it appends, in order, or the exception it raises.  \<open>marshal_items\<close> is
  the \<^verbatim>\<open>for item in value\<close> loop of the list branch and \<open>marshal_entries\<close> the
  \<^verbatim>\<open>for name, value in data.items()\<close> loop of \<^verbatim>\<open>marshal\<close>.
\<close>

fun marshal_value :: "string \<Rightarrow> pyval \<Rightarrow> error + xml list"
  and marshal_items :: "string \<Rightarrow> pyval list \<Rightarrow> error + xml list"
  and marshal_entries :: "pydict \<Rightarrow> error + xml list"
where
  "marshal_value tg PNone = Inr []"
| "marshal_value tg (PStr s) = Inr [Element tg (Some s) []]"
| "marshal_value tg (PInt i) = Inr [Element tg (Some (str_int i)) []]"
| "marshal_value tg (PFloat s) = Inr [Element tg (Some s) []]"
| "marshal_value tg (PList xs) = marshal_items tg xs"
| "marshal_value tg (PDict d) =
     (case marshal_entries d of Inl err \<Rightarrow> Inl err | Inr cs \<Rightarrow> Inr [Element tg None cs])"
| "marshal_value tg (PObj d) =
     (case marshal_entries d of Inl err \<Rightarrow> Inl err | Inr cs \<Rightarrow> Inr [Element tg None cs])"
| "marshal_value tg (POther s) = Inl (NotImplementedError tg s)"
| "marshal_items tg [] = Inr []"
| "marshal_items tg (x # xs) =
     (case marshal_value tg x of
        Inl err \<Rightarrow> Inl err
      | Inr cs \<Rightarrow> (case marshal_items tg xs of Inl err \<Rightarrow> Inl err | Inr cs' \<Rightarrow> Inr (cs @ cs')))"
| "marshal_entries [] = Inr []"
| "marshal_entries (nv # d) =
     (case marshal_value (fst nv) (snd nv) of
        Inl err \<Rightarrow> Inl err
      | Inr cs \<Rightarrow> (case marshal_entries d of Inl err \<Rightarrow> Inl err | Inr cs' \<Rightarrow> Inr (cs @ cs')))"

definition marshal :: "string \<Rightarrow> pydict \<Rightarrow> error + xml" where
  "marshal tg data =
     (case marshal_entries data of Inl err \<Rightarrow> Inl err | Inr cs \<Rightarrow> Inr (Element tg None cs))"

text \<open>
  One turn of the loop of \<^verbatim>\<open>unmarshal\<close>: \<open>result[name]\<close> is created, turned into a
  two-element list, or appended to.  \<open>AList.update\<close> keeps the position of a key that
  is present and adds a new key at the end, as a Python dict does.
\<close>

definition add_child :: "pydict \<Rightarrow> string \<Rightarrow> pyval \<Rightarrow> pydict" where
  "add_child result name v =
     (case map_of result name of
        Some old \<Rightarrow>
          (case old of
             PList xs \<Rightarrow> AList.update name (PList (xs @ [v])) result
           | _ \<Rightarrow> AList.update name (PList [old, v]) result)
      | None \<Rightarrow> AList.update name v result)"

fun unmarshal :: "xml \<Rightarrow> pyval" where
  "unmarshal (Element tg txt cs) =
     (case txt of
        Some t \<Rightarrow> PStr t
      | None \<Rightarrow>
          if length cs = 0 then PNone
          else PDict (foldl (\<lambda>result child. add_child result (tag child) (unmarshal child)) [] cs))"

text \<open>
  \<^verbatim>\<open>tostring\<close> and \<^verbatim>\<open>fromstring\<close>.  The bytes on the wire are not modelled: the
  gateway is handed the element tree that \<^verbatim>\<open>Et.tostring\<close> serialises, and hands back
  the tree that \<^verbatim>\<open>Et.fromstring\<close> parses, or \<open>None\<close> for a body it rejects.
\<close>

definition tostring :: "string \<Rightarrow> pydict \<Rightarrow> error + xml" where
  "tostring tg obj = marshal tg obj"

fun fromstring :: "xml option \<Rightarrow> error + pyval" where
  "fromstring None = Inl ParseError"
| "fromstring (Some root) = Inr (unmarshal root)"

section \<open>The gateway client (class \_SchlundtechGatewayClient)\<close>

record client =
  user :: pyval
  password :: pyval
  auth_context :: pyval
  ttl :: pyval

text \<open>
  What \<^verbatim>\<open>urlopen\<close> does with a request: it raises \<^verbatim>\<open>HTTPError\<close> (code, reason) or
  \<^verbatim>\<open>URLError\<close> (reason), or returns a connection whose body is read and parsed.
  The gateway is any function of the tasks it was sent before and of the request.
\<close>

datatype reply = HTTPError int string | URLError string | Body "xml option"

type_synonym gateway = "pyval list \<Rightarrow> xml \<Rightarrow> reply"

text \<open>
  A line of \<^verbatim>\<open>logger.debug\<close>: a text, or a text followed by the rendering of a value
  or of a caught exception (\<^verbatim>\<open>repr\<close> and \<^verbatim>\<open>format\<close> are not expanded).
\<close>

datatype log_entry = Debug string | DebugVal string pyval | DebugErr string reply

text \<open>The effects of the client: the tasks it has POSTed and the lines it has logged.\<close>

record world =
  calls :: "pyval list"
  logs :: "log_entry list"

definition debug :: "log_entry \<Rightarrow> world \<Rightarrow> world" where
  "debug l w = w\<lparr>logs := logs w @ [l]\<rparr>"

definition GATEWAY_URL :: string where
  "GATEWAY_URL = ''https://gateway.schlundtech.de''"

definition auth :: "client \<Rightarrow> pyval" where
  "auth c = PDict [(''user'', user c), (''password'', password c), (''context'', auth_context c)]"

definition strip_domain :: "string \<Rightarrow> string \<Rightarrow> string" where
  "strip_domain domain validation_name =
     (if suffix domain validation_name then py_replace validation_name (CHR ''.'' # domain) []
      else validation_name)"

definition log_call_error :: "pydict \<Rightarrow> pyval \<Rightarrow> reply option \<Rightarrow> world \<Rightarrow> (error + unit) \<times> world" where
  "log_call_error request response err w =
     (let w1 = debug (Debug (''Error calling '' @ GATEWAY_URL)) w in
      case py_getitem (PDict request) ''task'' of
        Inl ex \<Rightarrow> (Inl ex, w1)
      | Inr task \<Rightarrow>
          (let w2 = debug (DebugVal ''Request was:  '' task) w1;
               w3 = (if response \<noteq> PNone then debug (DebugVal ''Response was: '' response) w2 else w2);
               w4 = (case err of Some e \<Rightarrow> debug (DebugErr ''Error was:    '' e) w3 | None \<Rightarrow> w3)
           in (Inr (), w4)))"

text \<open>
  \<^verbatim>\<open>_call\<close>.  \<^verbatim>\<open>tostring\<close> runs before \<^verbatim>\<open>urlopen\<close>, so a task that cannot be
  marshalled is never sent.  Only \<^verbatim>\<open>HTTPError\<close> and \<^verbatim>\<open>URLError\<close> are caught.
\<close>

definition call :: "client \<Rightarrow> gateway \<Rightarrow> pyval \<Rightarrow> world \<Rightarrow> (error + pyval) \<times> world" where
  "call c gw task w =
     (let request = [(''auth'', auth c), (''language'', PStr ''en''), (''task'', task)] in
      case tostring ''request'' request of
        Inl ex \<Rightarrow> (Inl ex, w)
      | Inr data \<Rightarrow>
          (let w1 = w\<lparr>calls := calls w @ [task]\<rparr> in
           case gw (calls w) data of
             HTTPError code reason \<Rightarrow>
               (case log_call_error request PNone (Some (HTTPError code reason)) w1 of
                  (Inl ex, w2) \<Rightarrow> (Inl ex, w2)
                | (Inr u, w2) \<Rightarrow>
                    (Inl (PluginError (''Communication error while calling '' @ GATEWAY_URL @
                            [CHR 0x0A] @ ''Response: '' @ str_int code @ '', '' @ reason) None), w2))
           | URLError reason \<Rightarrow>
               (case log_call_error request PNone (Some (URLError reason)) w1 of
                  (Inl ex, w2) \<Rightarrow> (Inl ex, w2)
                | (Inr u, w2) \<Rightarrow>
                    (Inl (PluginError (''Communication error while calling '' @ GATEWAY_URL @
                            [CHR 0x0A] @ ''Reason: '' @ reason) None), w2))
           | Body b \<Rightarrow>
               (case fromstring b of
                  Inl ex \<Rightarrow> (Inl ex, w1)
                | Inr response \<Rightarrow>
                    (if response = PNone then
                       (case log_call_error request response None w1 of
                          (Inl ex, w2) \<Rightarrow> (Inl ex, w2)
                        | (Inr u, w2) \<Rightarrow>
                            (Inl (PluginError (''Unexpected response received from '' @ GATEWAY_URL) None), w2))
                     else
                       (case py_getitem response ''result'' of
                          Inl ex \<Rightarrow> (Inl ex, w1)
                        | Inr result \<Rightarrow>
                            if result \<noteq> PNone then (Inr result, w1)
                            else
                              (case log_call_error request response None w1 of
                                 (Inl ex, w2) \<Rightarrow> (Inl ex, w2)
                               | (Inr u, w2) \<Rightarrow>
                                   (Inl (PluginError (''Unexpected response received from '' @ GATEWAY_URL)
                                           (Some response)), w2)))))))"

text \<open>\<^verbatim>\<open>v[k1][k2]\<close>, as in \<^verbatim>\<open>result['status']['type']\<close>.\<close>

definition py_getitem2 :: "pyval \<Rightarrow> string \<Rightarrow> string \<Rightarrow> error + pyval" where
  "py_getitem2 v k1 k2 = (case py_getitem v k1 of Inl ex \<Rightarrow> Inl ex | Inr x \<Rightarrow> py_getitem x k2)"

definition zone_task :: "string \<Rightarrow> pyval" where
  "zone_task domain = PDict [(''code'', PStr ''0205''), (''zone'', PDict [(''name'', PStr domain)])]"

definition zone_info :: "client \<Rightarrow> gateway \<Rightarrow> string \<Rightarrow> world \<Rightarrow> (error + pyval) \<times> world" where
  "zone_info c gw domain w =
     (case call c gw (zone_task domain) w of
        (Inl ex, w1) \<Rightarrow> (Inl ex, w1)
      | (Inr result, w1) \<Rightarrow>
          (let failed =
                 (Inl (PluginError (''Unable to find a SchlundTech zone for '' @ domain) None),
                  debug (DebugVal ''Response was: '' result)
                    (debug (Debug (''Failed retrieving zone '' @ domain)) w1))
           in if \<not> py_truthy result then failed
              else
                (case py_getitem2 result ''status'' ''type'' of
                   Inl ex \<Rightarrow> (Inl ex, w1)
                 | Inr t \<Rightarrow>
                     if t = PStr ''success'' then
                       (case py_getitem2 result ''data'' ''zone'' of
                          Inl ex \<Rightarrow> (Inl ex, w1)
                        | Inr zone \<Rightarrow> (Inr zone, w1))
                     else failed)))"

text \<open>The loop of \<^verbatim>\<open>_current_value\<close>; falling off its end leads to \<^verbatim>\<open>return None\<close>.\<close>

fun scan_rr :: "pyval list \<Rightarrow> string \<Rightarrow> string \<Rightarrow> error + pyval" where
  "scan_rr [] pre validation = Inr PNone"
| "scan_rr (rr # rrs) pre validation =
     (case py_getitem rr ''name'' of
        Inl ex \<Rightarrow> Inl ex
      | Inr n \<Rightarrow>
          if n = PStr pre then
            (case py_getitem rr ''value'' of
               Inl ex \<Rightarrow> Inl ex
             | Inr v \<Rightarrow> if v \<noteq> PStr validation then Inr v else scan_rr rrs pre validation)
          else scan_rr rrs pre validation)"

text \<open>
  \<^verbatim>\<open>_current_value\<close> returns the value found; it also replaces a single record in
  \<open>info\<close> by a one-element list, so the model returns the updated \<open>info\<close> as well.
\<close>

definition current_value :: "pyval \<Rightarrow> string \<Rightarrow> string \<Rightarrow> string \<Rightarrow> error + (pyval \<times> pyval)" where
  "current_value info domain validation_name validation =
     (let pre = strip_domain domain validation_name in
      case py_contains info ''rr'' of
        Inl ex \<Rightarrow> Inl ex
      | Inr False \<Rightarrow> Inr (PNone, info)
      | Inr True \<Rightarrow>
          (case py_getitem info ''rr'' of
             Inl ex \<Rightarrow> Inl ex
           | Inr rr \<Rightarrow>
               (case (case rr of PList xs \<Rightarrow> Inr (xs, info)
                      | _ \<Rightarrow> (case py_setitem info ''rr'' (PList [rr]) of
                                 Inl ex \<Rightarrow> Inl ex | Inr info' \<Rightarrow> Inr ([rr], info')))
                of Inl ex \<Rightarrow> Inl ex
                 | Inr (rrs, info') \<Rightarrow>
                     (case scan_rr rrs pre validation of
                        Inl ex \<Rightarrow> Inl ex
                      | Inr v \<Rightarrow> Inr (v, info')))))"

text \<open>
  The expression \<^verbatim>\<open>('\n' + result['status']['text']) if result is not None and
  'text' in result['status'] else ''\<close> of both update operations.
\<close>

definition status_msg :: "pyval \<Rightarrow> error + string" where
  "status_msg result =
     (if result \<noteq> PNone then
        (case py_getitem result ''status'' of
           Inl ex \<Rightarrow> Inl ex
         | Inr st \<Rightarrow>
             (case py_contains st ''text'' of
                Inl ex \<Rightarrow> Inl ex
              | Inr True \<Rightarrow>
                  (case py_getitem2 result ''status'' ''text'' of
                     Inl ex \<Rightarrow> Inl ex
                   | Inr t \<Rightarrow> py_concat [CHR 0x0A] t)
              | Inr False \<Rightarrow> Inr []))
      else Inr [])"

text \<open>
  The test \<^verbatim>\<open>result is None or result['status']['type'] != 'success'\<close> and the
  branch it guards, with the words of the operation (\<open>adding\<close>/\<open>add\<close> or
  \<open>removing\<close>/\<open>remove\<close>) as parameters.
\<close>

definition check_update :: "string \<Rightarrow> string \<Rightarrow> string \<Rightarrow> string \<Rightarrow> pyval \<Rightarrow> world \<Rightarrow> (error + unit) \<times> world" where
  "check_update doing do domain validation_name result w =
     (case (if result = PNone then Inr True
            else (case py_getitem2 result ''status'' ''type'' of
                    Inl ex \<Rightarrow> Inl ex | Inr t \<Rightarrow> Inr (t \<noteq> PStr ''success'')))
      of Inl ex \<Rightarrow> (Inl ex, w)
       | Inr False \<Rightarrow> (Inr (), w)
       | Inr True \<Rightarrow>
           (let w1 = debug (DebugVal ''Response was: '' result)
                       (debug (Debug (''Failed '' @ doing @ '' TXT record '' @ [CHR 0x27] @ validation_name @
                          [CHR 0x27] @ '' for domain '' @ [CHR 0x27] @ domain @ [CHR 0x27])) w)
            in case status_msg result of
                 Inl ex \<Rightarrow> (Inl ex, w1)
               | Inr msg \<Rightarrow>
                   (Inl (PluginError (''Unable to '' @ do @ '' TXT record for '' @ domain @ '': '' @
                           validation_name @ msg) None), w1)))"

definition add_task :: "client \<Rightarrow> string \<Rightarrow> string \<Rightarrow> string \<Rightarrow> pyval \<Rightarrow> pyval \<Rightarrow> pyval" where
  "add_task c domain validation_name validation system_ns soa =
     PDict [(''code'', PStr ''0202001''),
            (''zone'', PDict [(''name'', PStr domain), (''system_ns'', system_ns)]),
            (''default'', PDict
               [(''rr_add'', PDict [(''name'', PStr (strip_domain domain validation_name)),
                                    (''type'', PStr ''TXT''),
                                    (''value'', PStr validation),
                                    (''ttl'', ttl c)]),
                (''soa'', soa)])]"

definition add_txt_record ::
  "client \<Rightarrow> gateway \<Rightarrow> string \<Rightarrow> string \<Rightarrow> string \<Rightarrow> world \<Rightarrow> (error + unit) \<times> world" where
  "add_txt_record c gw domain validation_name validation w =
     (case zone_info c gw domain w of
        (Inl ex, w1) \<Rightarrow> (Inl ex, w1)
      | (Inr info0, w1) \<Rightarrow>
          (case current_value info0 domain validation_name validation of
             Inl ex \<Rightarrow> (Inl ex, w1)
           | Inr (cur, info) \<Rightarrow>
               if cur \<noteq> PNone \<and> cur \<noteq> PStr validation then
                 (Inl (PluginError (''TXT record '' @ validation_name @ '' for '' @ domain @
                         '' already exists with different value'') None),
                  debug (DebugVal (validation_name @ '' already exists with value '') cur) w1)
               else if cur = PStr validation then
                 (Inr (), debug (Debug (validation_name @ '' already exists with identical value'')) w1)
               else
                 (case py_getitem info ''system_ns'' of
                    Inl ex \<Rightarrow> (Inl ex, w1)
                  | Inr system_ns \<Rightarrow>
                      (case py_getitem info ''soa'' of
                         Inl ex \<Rightarrow> (Inl ex, w1)
                       | Inr soa \<Rightarrow>
                           (case call c gw (add_task c domain validation_name validation system_ns soa) w1 of
                              (Inl ex, w2) \<Rightarrow> (Inl ex, w2)
                            | (Inr result, w2) \<Rightarrow>
                                check_update ''adding'' ''add'' domain validation_name result w2)))))"

definition del_task :: "client \<Rightarrow> string \<Rightarrow> string \<Rightarrow> string \<Rightarrow> pyval \<Rightarrow> pyval" where
  "del_task c domain validation_name validation system_ns =
     PDict [(''code'', PStr ''0202001''),
            (''zone'', PDict [(''name'', PStr domain), (''system_ns'', system_ns)]),
            (''default'', PDict
               [(''rr_rem'', PDict [(''name'', PStr (strip_domain domain validation_name)),
                                    (''type'', PStr ''TXT''),
                                    (''value'', PStr validation),
                                    (''ttl'', ttl c)])])]"

definition del_txt_record ::
  "client \<Rightarrow> gateway \<Rightarrow> string \<Rightarrow> string \<Rightarrow> string \<Rightarrow> world \<Rightarrow> (error + unit) \<times> world" where
  "del_txt_record c gw domain validation_name validation w =
     (case zone_info c gw domain w of
        (Inl ex, w1) \<Rightarrow> (Inl ex, w1)
      | (Inr info, w1) \<Rightarrow>
          (case py_getitem info ''system_ns'' of
             Inl ex \<Rightarrow> (Inl ex, w1)
           | Inr system_ns \<Rightarrow>
               (case call c gw (del_task c domain validation_name validation system_ns) w1 of
                  (Inl ex, w2) \<Rightarrow> (Inl ex, w2)
                | (Inr result, w2) \<Rightarrow>
                    check_update ''removing'' ''remove'' domain validation_name result w2)))"

section \<open>Notions used to state the properties of the codec\<close>

text \<open>
  The loop of \<open>unmarshal\<close> on the pairs (tag, unmarshalled value) of the children.
\<close>

fun add_children :: "pydict \<Rightarrow> (string \<times> pyval) list \<Rightarrow> pydict" where
  "add_children r [] = r"
| "add_children r (nv # kvs) = add_children (add_child r (fst nv) (snd nv)) kvs"

definition tagged :: "xml list \<Rightarrow> (string \<times> pyval) list" where
  "tagged cs = map (\<lambda>c. (tag c, unmarshal c)) cs"

text \<open>
  Grouping by tag, as the specification words it: the keys are the tags in the order of
  their first occurrence; a tag that occurs once holds the bare value, a tag that occurs
  several times holds the list of its values in document order.
\<close>

definition first_occ :: "'a list \<Rightarrow> 'a list" where
  "first_occ ks = rev (remdups (rev ks))"

fun collapse :: "pyval list \<Rightarrow> pyval" where
  "collapse [v] = v"
| "collapse vs = PList vs"

definition values_of :: "string \<Rightarrow> (string \<times> pyval) list \<Rightarrow> pyval list" where
  "values_of t kvs = map snd (filter (\<lambda>nv. fst nv = t) kvs)"

definition grouped :: "(string \<times> pyval) list \<Rightarrow> pydict" where
  "grouped kvs = map (\<lambda>t. (t, collapse (values_of t kvs))) (first_occ (map fst kvs))"

fun is_list :: "pyval \<Rightarrow> bool" where
  "is_list (PList xs) = True"
| "is_list _ = False"

text \<open>
  The shape of what \<open>unmarshal\<close> returns: \<^verbatim>\<open>None\<close>, a non-empty string, or a
  non-empty dict whose entries are such values or lists of at least two such values.
  \<open>no_empty_text\<close> holds of the trees a parser builds: an element without character
  data has the text \<^verbatim>\<open>None\<close>, never the empty string.
\<close>


fun no_empty_text :: "xml \<Rightarrow> bool" where
  "no_empty_text (Element tg txt cs) = (txt \<noteq> Some [] \<and> list_all no_empty_text cs)"

fun value_ok :: "pyval \<Rightarrow> bool"
  and items_ok :: "pyval list \<Rightarrow> bool"
  and entries_ok :: "pydict \<Rightarrow> bool"
where
  "value_ok PNone = True"
| "value_ok (PStr s) = (s \<noteq> [])"
| "value_ok (PDict d) = (d \<noteq> [] \<and> entries_ok d)"
| "value_ok (PInt i) = False"
| "value_ok (PFloat s) = False"
| "value_ok (PList xs) = False"
| "value_ok (PObj d) = False"
| "value_ok (POther s) = False"
| "items_ok [] = True"
| "items_ok (x # xs) = (value_ok x \<and> items_ok xs)"
| "entries_ok [] = True"
| "entries_ok (nv # d) =
     ((case snd nv of PList xs \<Rightarrow> 2 \<le> length xs \<and> items_ok xs | v \<Rightarrow> value_ok v) \<and> entries_ok d)"

text \<open>The shapes of a value that the marshaller tells apart.\<close>

fun is_scalar :: "pyval \<Rightarrow> bool" where
  "is_scalar (PStr s) = True"
| "is_scalar (PInt i) = True"
| "is_scalar (PFloat s) = True"
| "is_scalar _ = False"

fun is_map :: "pyval \<Rightarrow> bool" where
  "is_map (PDict d) = True"
| "is_map (PObj d) = True"
| "is_map _ = False"

text \<open>
  What a Map looks like after \<open>marshal\<close> and \<open>unmarshal\<close>.  \<open>images v\<close> are the
  unmarshalled forms of the elements that the value \<open>v\<close> emits, in order: none for
  null, the string form for a scalar, the items' images one after the other for a List
  (so nested Lists are flattened and null items vanish), the image of the Map for a
  nested Map.  A field with no image is dropped, a field with one image holds it bare, a
  field with several holds their List; a Map left without fields becomes null.
  \<open>unique_keys\<close> says that no dict inside a value has a key twice, as in Python.
\<close>

definition as_value :: "pydict \<Rightarrow> pyval" where
  "as_value d = (if d = [] then PNone else PDict d)"

fun images :: "pyval \<Rightarrow> pyval list"
  and images_list :: "pyval list \<Rightarrow> pyval list"
  and image_entries :: "pydict \<Rightarrow> pydict"
where
  "images PNone = []"
| "images (PStr s) = [PStr s]"
| "images (PInt i) = [PStr (str_int i)]"
| "images (PFloat s) = [PStr s]"
| "images (PList xs) = images_list xs"
| "images (PDict d) = [as_value (image_entries d)]"
| "images (PObj d) = [as_value (image_entries d)]"
| "images (POther s) = []"
| "images_list [] = []"
| "images_list (x # xs) = images x @ images_list xs"
| "image_entries [] = []"
| "image_entries (nv # d) =
     (case images (snd nv) of
        [] \<Rightarrow> image_entries d
      | vs \<Rightarrow> (fst nv, collapse vs) # image_entries d)"

fun unique_keys :: "pyval \<Rightarrow> bool"
  and unique_keys_list :: "pyval list \<Rightarrow> bool"
  and unique_keys_entries :: "pydict \<Rightarrow> bool"
where
  "unique_keys (PList xs) = unique_keys_list xs"
| "unique_keys (PDict d) = (distinct (map fst d) \<and> unique_keys_entries d)"
| "unique_keys (PObj d) = (distinct (map fst d) \<and> unique_keys_entries d)"
| "unique_keys PNone = True"
| "unique_keys (PStr s) = True"
| "unique_keys (PInt i) = True"
| "unique_keys (PFloat s) = True"
| "unique_keys (POther s) = True"
| "unique_keys_list [] = True"
| "unique_keys_list (x # xs) = (unique_keys x \<and> unique_keys_list xs)"
| "unique_keys_entries [] = True"
| "unique_keys_entries (nv # d) = (unique_keys (snd nv) \<and> unique_keys_entries d)"

section \<open>Notions used to state the properties of the gateway client\<close>

text \<open>
  A resource record of the data model is a Map with a string \<open>name\<close> and a string
  \<open>value\<close>; \<open>records\<close> reads the \<open>rr\<close> field of a zone as a list, a single record
  being a list of one.
\<close>

fun is_resource_record :: "pyval \<Rightarrow> bool" where
  "is_resource_record (PDict d) =
     ((case map_of d ''name'' of Some (PStr n) \<Rightarrow> True | _ \<Rightarrow> False) \<and>
      (case map_of d ''value'' of Some (PStr v) \<Rightarrow> True | _ \<Rightarrow> False))"
| "is_resource_record _ = False"

definition records :: "pyval \<Rightarrow> pyval list" where
  "records rr = (case rr of PList xs \<Rightarrow> xs | _ \<Rightarrow> [rr])"

text \<open>
  A result of the gateway that reports a failure: its \<open>status\<close> is a Map whose
  \<open>type\<close> is present and is not \<^verbatim>\<open>success\<close>, and whose \<open>text\<close> is missing or a
  string.  \<open>status_text\<close> is what the provider's text adds to the message of the error:
  a line break and the text, or nothing.
\<close>

definition failure_status :: "pyval \<Rightarrow> pydict \<Rightarrow> bool" where
  "failure_status result st =
     (py_getitem result ''status'' = Inr (PDict st) \<and>
      (case map_of st ''type'' of Some t \<Rightarrow> t \<noteq> PStr ''success'' | None \<Rightarrow> False) \<and>
      (case map_of st ''text'' of None \<Rightarrow> True | Some (PStr s) \<Rightarrow> True | _ \<Rightarrow> False))"

definition status_text :: "pydict \<Rightarrow> string" where
  "status_text st = (case map_of st ''text'' of Some (PStr s) \<Rightarrow> CHR 0x0A # s | _ \<Rightarrow> [])"

section \<open>Example clients and gateways\<close>

text \<open>
  Concrete data for evaluating the operations: the client of the credentials example, a
  world in which nothing has happened yet, and replies in the shape the gateway sends
  (\<^verbatim>\<open><response><result><status><type>..</type>..</status>..</result></response>\<close>).
\<close>

definition example_client :: client where
  "example_client =
     \<lparr>user = PStr ''54321'', password = PStr ''PASSWORD'', auth_context = PStr ''10'', ttl = PInt 60\<rparr>"

definition fresh :: world where
  "fresh = \<lparr>calls = [], logs = []\<rparr>"

definition status_reply :: "string \<Rightarrow> xml list \<Rightarrow> xml list \<Rightarrow> xml" where
  "status_reply t extra dat =
     Element ''response'' None
       [Element ''result'' None
          (Element ''status'' None (Element ''type'' (Some t) [] # extra) # dat)]"

definition zone_reply :: "xml list \<Rightarrow> xml" where
  "zone_reply rrs =
     status_reply ''success'' []
       [Element ''data'' None
          [Element ''zone'' None
             ([Element ''name'' (Some ''example.com'') [],
               Element ''system_ns'' (Some ''a.ns.de'') [],
               Element ''soa'' None [Element ''level'' (Some ''1'') []]] @ rrs)]]"

definition txt_rr :: "string \<Rightarrow> string \<Rightarrow> xml" where
  "txt_rr n v =
     Element ''rr'' None
       [Element ''name'' (Some n) [], Element ''type'' (Some ''TXT'') [],
        Element ''value'' (Some v) [], Element ''ttl'' (Some ''60'') []]"

text \<open>
  A gateway whose zone \<^verbatim>\<open>example.com\<close> already holds the TXT record
  \<^verbatim>\<open>_acme-challenge\<close> with the value \<^verbatim>\<open>TOKEN\<close>, and which accepts every update.
\<close>

definition gw_same_value :: gateway where
  "gw_same_value hist req =
     (if hist = [] then Body (Some (zone_reply [txt_rr ''_acme-challenge'' ''TOKEN'']))
      else Body (Some (status_reply ''success'' [] [])))"

text \<open>A gateway that answers with a document that has no \<^verbatim>\<open>result\<close> element.\<close>

definition gw_no_result :: gateway where
  "gw_no_result hist req =
     Body (Some (Element ''response'' None [Element ''status'' (Some ''busy'') []]))"

text \<open>Elements to unmarshal.\<close>

definition zone_three_rr :: xml where
  "zone_three_rr =
     Element ''zone'' None
       [Element ''rr'' (Some ''1'') [], Element ''name'' (Some ''example.com'') [],
        Element ''rr'' (Some ''2'') [], Element ''rr'' (Some ''3'') []]"

definition zone_empty_rr :: xml where
  "zone_empty_rr = Element ''zone'' None [Element ''name'' (Some ''example.com'') [], Element ''rr'' None []]"

text \<open>Entries to marshal, and the elements that an entry emits.\<close>

definition emitted :: "string \<times> pyval \<Rightarrow> xml list" where
  "emitted nv = (case marshal_value (fst nv) (snd nv) of Inr cs \<Rightarrow> cs | Inl err \<Rightarrow> [])"

definition rr_add_entries :: pydict where
  "rr_add_entries =
     [(''name'', PStr ''_acme-challenge''), (''ttl'', PInt 60), (''note'', PNone),
      (''value'', PList [PStr ''a'', PStr ''b''])]"

text \<open>A Map and the document \<open>marshal\<close> makes of it.\<close>

definition zone_map :: pydict where
  "zone_map =
     [(''name'', PStr ''example.com''), (''ttl'', PInt 60), (''note'', PNone),
      (''rr'', PList [PDict [(''name'', PStr ''a'')], PNone, PList [PDict [(''name'', PStr ''b'')]]]),
      (''tags'', PList []), (''ns'', PList [PStr ''a.ns.de'']), (''soa'', PDict [(''level'', PNone)])]"

definition zone_doc :: xml where
  "zone_doc =
     Element ''zone'' None
       [Element ''name'' (Some ''example.com'') [], Element ''ttl'' (Some ''60'') [],
        Element ''rr'' None [Element ''name'' (Some ''a'') []],
        Element ''rr'' None [Element ''name'' (Some ''b'') []],
        Element ''ns'' (Some ''a.ns.de'') [], Element ''soa'' None []]"

text \<open>
  A gateway whose zone holds the record \<^verbatim>\<open>_acme-challenge\<close> with the value
  \<^verbatim>\<open>OLD\<close> after another record, with the zone it answers; and a gateway with a zone
  without records that refuses every update with the text \<^verbatim>\<open>Quota exceeded\<close>.
\<close>

definition gw_other_value :: gateway where
  "gw_other_value hist req =
     (if hist = [] then Body (Some (zone_reply [txt_rr ''www'' ''x'', txt_rr ''_acme-challenge'' ''OLD'']))
      else Body (Some (status_reply ''success'' [] [])))"

definition zone_other_value :: pydict where
  "zone_other_value =
     [(''name'', PStr ''example.com''), (''system_ns'', PStr ''a.ns.de''),
      (''soa'', PDict [(''level'', PStr ''1'')]),
      (''rr'', PList
         [PDict [(''name'', PStr ''www''), (''type'', PStr ''TXT''), (''value'', PStr ''x''),
                 (''ttl'', PStr ''60'')],
          PDict [(''name'', PStr ''_acme-challenge''), (''type'', PStr ''TXT''),
                 (''value'', PStr ''OLD''), (''ttl'', PStr ''60'')]])]"

definition gw_quota :: gateway where
  "gw_quota hist req =
     (if hist = [] then Body (Some (zone_reply []))
      else Body (Some (status_reply ''error'' [Element ''text'' (Some ''Quota exceeded'') []] [])))"

definition zone_plain :: pyval where
  "zone_plain =
     PDict [(''name'', PStr ''example.com''), (''system_ns'', PStr ''a.ns.de''),
            (''soa'', PDict [(''level'', PStr ''1'')])]"

definition quota_status :: pydict where
  "quota_status = [(''type'', PStr ''error''), (''text'', PStr ''Quota exceeded'')]"

definition after_zone_query :: world where
  "after_zone_query = \<lparr>calls = [zone_task ''example.com''], logs = []\<rparr>"

text \<open>
  A gateway whose zone holds two records of the name \<^verbatim>\<open>_acme-challenge\<close>: one with an
  empty \<^verbatim>\<open><value/>\<close> element, then one with the value \<^verbatim>\<open>OLD\<close>; it accepts every
  update.  And a gateway with a zone without records that refuses every update with an
  empty \<^verbatim>\<open><text/>\<close> element in the status.
\<close>

definition txt_rr_no_value :: "string \<Rightarrow> xml" where
  "txt_rr_no_value n =
     Element ''rr'' None
       [Element ''name'' (Some n) [], Element ''type'' (Some ''TXT'') [],
        Element ''value'' None [], Element ''ttl'' (Some ''60'') []]"

definition gw_null_value :: gateway where
  "gw_null_value hist req =
     (if hist = [] then
        Body (Some (zone_reply [txt_rr_no_value ''_acme-challenge'', txt_rr ''_acme-challenge'' ''OLD'']))
      else Body (Some (status_reply ''success'' [] [])))"

definition gw_empty_text :: gateway where
  "gw_empty_text hist req =
     (if hist = [] then Body (Some (zone_reply []))
      else Body (Some (status_reply ''error'' [Element ''text'' None []] [])))"

section \<open>Properties of the gateway client on concrete inputs\<close>

text \<open>
  C1.  The zone already holds a record with the relative name and the very value that
  \<^verbatim>\<open>add_txt_record\<close> is asked to add.  \<^verbatim>\<open>_current_value\<close> skips a record whose
  value equals the validation, so it returns \<^verbatim>\<open>None\<close>, the branch
  ``already exists with identical value'' is not taken, and the operation sends a second
  task, the zone update 0202001 with \<^verbatim>\<open>rr_add\<close>, after the zone query.
\<close>

theorem add_txt_record_same_value_sends_update:
  "add_txt_record example_client gw_same_value ''example.com'' ''_acme-challenge.example.com''
     ''TOKEN'' fresh =
   (Inr (),
    \<lparr>calls =
       [zone_task ''example.com'',
        add_task example_client ''example.com'' ''_acme-challenge.example.com'' ''TOKEN''
          (PStr ''a.ns.de'') (PDict [(''level'', PStr ''1'')])],
     logs = []\<rparr>)"
  by code_simp

text \<open>
  C2.  \<^verbatim>\<open>_strip_domain\<close> uses \<^verbatim>\<open>str.replace\<close>, which removes every occurrence of
  \<^verbatim>\<open>'.' + domain\<close> and not the trailing one alone: for the domain
  \<^verbatim>\<open>example.com\<close> the name \<^verbatim>\<open>a.example.com.example.com\<close> becomes \<^verbatim>\<open>a\<close>, where
  removing the trailing suffix would leave \<^verbatim>\<open>a.example.com\<close>.
\<close>

theorem strip_domain_removes_inner_occurrence:
  "strip_domain ''example.com'' ''a.example.com.example.com'' = ''a''"
  by code_simp

text \<open>
  C6.  The POST succeeds and the response is a Map without a \<^verbatim>\<open>result\<close> field.
  \<^verbatim>\<open>response['result']\<close> raises \<^verbatim>\<open>KeyError\<close> inside the test that guards the
  ``Unexpected response'' branch: no \<^verbatim>\<open>PluginError\<close> is raised and nothing is logged.
\<close>

theorem call_missing_result_raises_KeyError:
  "call example_client gw_no_result (zone_task ''example.com'') fresh =
   (Inl (KeyError ''result''), \<lparr>calls = [zone_task ''example.com''], logs = []\<rparr>)"
  by code_simp

text \<open>
  C3.  The zone holds a record of the relative name whose value is \<^verbatim>\<open>OLD\<close>, not the
  \<^verbatim>\<open>TOKEN\<close> that \<^verbatim>\<open>add_txt_record\<close> is asked to add, and before it a record of the
  same name with an empty \<^verbatim>\<open><value/>\<close>.  \<^verbatim>\<open>_current_value\<close> finds that the first
  record differs and returns its value, which is \<^verbatim>\<open>None\<close>; the caller reads
  \<^verbatim>\<open>None\<close> as ``no record'', raises no error and sends the zone update 0202001 with
  \<^verbatim>\<open>rr_add\<close>.
\<close>

theorem add_txt_record_null_value_sends_update:
  "add_txt_record example_client gw_null_value ''example.com'' ''_acme-challenge.example.com''
     ''TOKEN'' fresh =
   (Inr (),
    \<lparr>calls =
       [zone_task ''example.com'',
        add_task example_client ''example.com'' ''_acme-challenge.example.com'' ''TOKEN''
          (PStr ''a.ns.de'') (PDict [(''level'', PStr ''1'')])],
     logs = []\<rparr>)"
  by code_simp

text \<open>
  C8.  The zone update returns a result whose \<open>status.type\<close> is \<^verbatim>\<open>error\<close> and whose
  status has an empty \<^verbatim>\<open><text/>\<close> element.  The entry \<open>text\<close> is present with the value
  \<^verbatim>\<open>None\<close>, so \<^verbatim>\<open>'text' in result['status']\<close> holds and
  \<^verbatim>\<open>'\n' + result['status']['text']\<close> raises \<^verbatim>\<open>TypeError\<close>: neither operation
  raises its \<^verbatim>\<open>PluginError\<close>.
\<close>

theorem update_failure_empty_text_raises_TypeError:
  "fst (add_txt_record example_client gw_empty_text ''example.com'' ''_acme-challenge.example.com''
          ''TOKEN'' fresh) = Inl TypeError \<and>
   fst (del_txt_record example_client gw_empty_text ''example.com'' ''_acme-challenge.example.com''
          ''TOKEN'' fresh) = Inl TypeError \<and>
   calls (snd (add_txt_record example_client gw_empty_text ''example.com''
          ''_acme-challenge.example.com'' ''TOKEN'' fresh)) =
     [zone_task ''example.com'',
      add_task example_client ''example.com'' ''_acme-challenge.example.com'' ''TOKEN''
        (PStr ''a.ns.de'') (PDict [(''level'', PStr ''1'')])] \<and>
   calls (snd (del_txt_record example_client gw_empty_text ''example.com''
          ''_acme-challenge.example.com'' ''TOKEN'' fresh)) =
     [zone_task ''example.com'',
      del_task example_client ''example.com'' ''_acme-challenge.example.com'' ''TOKEN''
        (PStr ''a.ns.de'')]"
  by code_simp

section \<open>The loop of unmarshal groups the children by tag\<close>

lemma add_children_foldl:
  "foldl (\<lambda>result child. add_child result (tag child) (unmarshal child)) r cs =
   add_children r (tagged cs)"
  by (induction cs arbitrary: r) (simp_all add: tagged_def)

lemma unmarshal_Element:
  "unmarshal (Element tg txt cs) =
     (case txt of Some t \<Rightarrow> PStr t
      | None \<Rightarrow> if cs = [] then PNone else PDict (add_children [] (tagged cs)))"
  by (simp add: add_children_foldl split: option.splits)

lemma unmarshal_not_list: "\<not> is_list (unmarshal e)"
  by (cases e) (simp add: unmarshal_Element split: option.splits)

lemma tagged_not_list: "nv \<in> set (tagged cs) \<Longrightarrow> \<not> is_list (snd nv)"
  by (auto simp: tagged_def unmarshal_not_list)

lemma add_children_snoc:
  "add_children r (kvs @ [nv]) = add_child (add_children r kvs) (fst nv) (snd nv)"
  by (induction kvs arbitrary: r) simp_all

lemma first_occ_snoc:
  "first_occ (ks @ [k]) = (if k \<in> set ks then first_occ ks else first_occ ks @ [k])"
  by (simp add: first_occ_def)

lemma set_first_occ [simp]: "set (first_occ ks) = set ks"
  by (simp add: first_occ_def)

lemma distinct_first_occ [simp]: "distinct (first_occ ks)"
  by (simp add: first_occ_def)

lemma first_occ_Nil [simp]: "first_occ [] = []"
  by (simp add: first_occ_def)

lemma map_of_tabulate:
  "map_of (map (\<lambda>t. (t, f t)) ts) k = (if k \<in> set ts then Some (f k) else None)"
  by (induction ts) auto

lemma update_tabulate_in:
  "distinct ts \<Longrightarrow> k \<in> set ts \<Longrightarrow>
   AList.update k x (map (\<lambda>t. (t, f t)) ts) = map (\<lambda>t. (t, if t = k then x else f t)) ts"
  by (induction ts) auto

lemma update_tabulate_out:
  "k \<notin> set ts \<Longrightarrow>
   AList.update k x (map (\<lambda>t. (t, f t)) ts) = map (\<lambda>t. (t, f t)) ts @ [(k, x)]"
  by (induction ts) auto

lemma values_of_snoc:
  "values_of t (kvs @ [nv]) = values_of t kvs @ (if fst nv = t then [snd nv] else [])"
  by (simp add: values_of_def)

lemma values_of_empty: "values_of t kvs = [] \<longleftrightarrow> t \<notin> fst ` set kvs"
  by (auto simp: values_of_def filter_empty_conv)

lemma collapse_snoc: "vs \<noteq> [] \<Longrightarrow> collapse (vs @ [v]) = PList (vs @ [v])"
  by (cases vs) (simp_all, metis collapse.simps(3) append_Cons neq_Nil_conv append_Nil)

lemma map_of_grouped:
  "map_of (grouped kvs) t =
     (if t \<in> fst ` set kvs then Some (collapse (values_of t kvs)) else None)"
  by (simp add: grouped_def map_of_tabulate)

lemma add_child_collapse:
  assumes "vs \<noteq> []" and "\<forall>x\<in>set vs. \<not> is_list x"
  shows "(case collapse vs of PList xs \<Rightarrow> AList.update n (PList (xs @ [v])) d
          | _ \<Rightarrow> AList.update n (PList [collapse vs, v]) d) =
         AList.update n (PList (vs @ [v])) d"
proof (cases vs)
  case Nil
  with assms show ?thesis by simp
next
  case (Cons a as)
  show ?thesis
  proof (cases as)
    case Nil
    with Cons assms show ?thesis by (cases a) simp_all
  next
    case (Cons b bs)
    with \<open>vs = a # as\<close> show ?thesis by simp
  qed
qed

lemma add_child_grouped:
  assumes "\<forall>nv\<in>set kvs. \<not> is_list (snd nv)"
  shows "add_child (grouped kvs) n v = grouped (kvs @ [(n, v)])"
proof (cases "n \<in> fst ` set kvs")
  case False
  then have "values_of n kvs = []" by (simp add: values_of_empty)
  moreover have "map (\<lambda>t. (t, collapse (values_of t (kvs @ [(n, v)])))) (first_occ (map fst kvs))
      = map (\<lambda>t. (t, collapse (values_of t kvs))) (first_occ (map fst kvs))"
    using False by (intro map_cong) (auto simp: values_of_snoc)
  ultimately show ?thesis
    using False
    by (simp add: add_child_def map_of_grouped)
       (simp add: grouped_def first_occ_snoc update_tabulate_out values_of_snoc)
next
  case True
  let ?vs = "values_of n kvs"
  have ne: "?vs \<noteq> []" using True by (simp add: values_of_empty)
  have nl: "\<forall>x\<in>set ?vs. \<not> is_list x" using assms by (auto simp: values_of_def)
  have "add_child (grouped kvs) n v = AList.update n (PList (?vs @ [v])) (grouped kvs)"
    using True add_child_collapse [OF ne nl] by (simp add: add_child_def map_of_grouped)
  also have "\<dots> = map (\<lambda>t. (t, if t = n then PList (?vs @ [v]) else collapse (values_of t kvs)))
                     (first_occ (map fst kvs))"
    unfolding grouped_def using True by (intro update_tabulate_in) simp_all
  also have "\<dots> = grouped (kvs @ [(n, v)])"
    using True ne by (simp add: grouped_def first_occ_snoc values_of_snoc collapse_snoc)
  finally show ?thesis .
qed

lemma add_children_grouped:
  "\<forall>nv\<in>set kvs. \<not> is_list (snd nv) \<Longrightarrow> add_children [] kvs = grouped kvs"
proof (induction kvs rule: rev_induct)
  case Nil
  show ?case by (simp add: grouped_def)
next
  case (snoc nv kvs)
  then show ?case
    by (cases nv) (simp add: add_children_snoc add_child_grouped)
qed

lemma unmarshal_grouped:
  "unmarshal (Element tg None cs) = (if cs = [] then PNone else PDict (grouped (tagged cs)))"
  using add_children_grouped [of "tagged cs"] tagged_not_list [of _ cs]
  by (auto simp: unmarshal_Element simp del: unmarshal.simps)

section \<open>What unmarshal returns\<close>

lemma items_ok_iff: "items_ok xs \<longleftrightarrow> (\<forall>x\<in>set xs. value_ok x)"
  by (induction xs) auto

lemma entries_ok_iff:
  "entries_ok d \<longleftrightarrow>
   (\<forall>nv\<in>set d. case snd nv of PList xs \<Rightarrow> 2 \<le> length xs \<and> items_ok xs | v \<Rightarrow> value_ok v)"
  by (induction d) auto

lemma entry_collapse_ok:
  assumes "vs \<noteq> []" and "\<forall>x\<in>set vs. value_ok x"
  shows "case collapse vs of PList xs \<Rightarrow> 2 \<le> length xs \<and> items_ok xs | v \<Rightarrow> value_ok v"
proof (cases vs)
  case Nil
  with assms show ?thesis by simp
next
  case (Cons a as)
  show ?thesis
  proof (cases as)
    case Nil
    with Cons assms show ?thesis by (cases a) simp_all
  next
    case (Cons b bs)
    with \<open>vs = a # as\<close> assms show ?thesis by (simp add: items_ok_iff)
  qed
qed

lemma grouped_Nil_iff: "grouped kvs = [] \<longleftrightarrow> kvs = []"
  by (simp add: grouped_def first_occ_def)

lemma set_values_of: "set (values_of t kvs) = {v. (t, v) \<in> set kvs}"
  by (auto simp: values_of_def image_iff)

lemma unmarshal_value_ok: "no_empty_text e \<Longrightarrow> value_ok (unmarshal e)"
proof (induction e)
  case (Element tg tx cs)
  show ?case
  proof (cases tx)
    case (Some t)
    with Element.prems show ?thesis by (simp add: unmarshal_Element del: unmarshal.simps)
  next
    case None
    have ok: "\<forall>c\<in>set cs. value_ok (unmarshal c)"
      using Element by (auto simp: list_all_iff)
    have "entries_ok (grouped (tagged cs))"
      unfolding entries_ok_iff
    proof
      fix nv assume "nv \<in> set (grouped (tagged cs))"
      then obtain t where t: "t \<in> fst ` set (tagged cs)"
        and nv: "nv = (t, collapse (values_of t (tagged cs)))"
        by (auto simp: grouped_def)
      have "values_of t (tagged cs) \<noteq> []" using t by (simp add: values_of_empty)
      moreover have "\<forall>x\<in>set (values_of t (tagged cs)). value_ok x"
        using ok by (auto simp: set_values_of tagged_def)
      ultimately show "case snd nv of PList xs \<Rightarrow> 2 \<le> length xs \<and> items_ok xs | v \<Rightarrow> value_ok v"
        using entry_collapse_ok nv by simp
    qed
    with None show ?thesis
      by (simp add: unmarshal_grouped grouped_Nil_iff tagged_def del: unmarshal.simps)
  qed
qed

lemma unmarshal_None_iff: "unmarshal e = PNone \<longleftrightarrow> etext e = None \<and> children e = []"
  by (cases e) (simp add: unmarshal_Element del: unmarshal.simps split: option.splits)

lemma getitem_unmarshal:
  assumes "etext e = None"
  shows "py_getitem (unmarshal e) t =
     (case map unmarshal (filter (\<lambda>c. tag c = t) (children e)) of
        [] \<Rightarrow> if children e = [] then Inl TypeError else Inl (KeyError t)
      | [v] \<Rightarrow> Inr v
      | vs \<Rightarrow> Inr (PList vs))"
proof (cases e)
  case (Element tg tx cs)
  have v: "values_of t (tagged cs) = map unmarshal (filter (\<lambda>c. tag c = t) cs)"
    by (simp add: values_of_def tagged_def filter_map comp_def)
  have m: "t \<in> fst ` set (tagged cs) \<longleftrightarrow> filter (\<lambda>c. tag c = t) cs \<noteq> []"
    by (auto simp: tagged_def filter_empty_conv image_iff)
  show ?thesis
  proof (cases "cs = []")
    case True
    with Element assms show ?thesis by (simp add: unmarshal_grouped del: unmarshal.simps)
  next
    case False
    show ?thesis
    proof (cases "map unmarshal (filter (\<lambda>c. tag c = t) cs)")
      case Nil
      with Element assms False m show ?thesis
        by (simp add: unmarshal_grouped map_of_grouped del: unmarshal.simps)
    next
      case (Cons a as)
      then have "t \<in> fst ` set (tagged cs)" using m by auto
      with Element assms False Cons v show ?thesis
        by (cases as) (simp_all add: unmarshal_grouped map_of_grouped del: unmarshal.simps)
    qed
  qed
qed

text \<open>
  C4 (amended).  For every element without text that has children, \<open>unmarshal\<close> returns
  the Map that groups the children by tag: the keys are the tags in the order of their
  first occurrence; a tag that occurs once maps to the bare unmarshalled value of its
  child, a tag that occurs n \<ge> 2 times to the n-element List of its children's
  unmarshalled values in document order; a tag that does not occur is no key.
\<close>

theorem unmarshal_groups_children_by_tag:
  assumes "etext e = None" and "children e \<noteq> []"
  shows "unmarshal e = PDict (grouped (tagged (children e))) \<and>
         (\<forall>t. py_getitem (unmarshal e) t =
            (case map unmarshal (filter (\<lambda>c. tag c = t) (children e)) of
               [] \<Rightarrow> Inl (KeyError t)
             | [v] \<Rightarrow> Inr v
             | vs \<Rightarrow> Inr (PList vs)))"
proof -
  obtain tg tx cs where e: "e = Element tg tx cs" by (cases e)
  with assms have "unmarshal e = PDict (grouped (tagged (children e)))"
    by (simp add: unmarshal_grouped del: unmarshal.simps)
  moreover have "\<forall>t. py_getitem (unmarshal e) t =
            (case map unmarshal (filter (\<lambda>c. tag c = t) (children e)) of
               [] \<Rightarrow> Inl (KeyError t)
             | [v] \<Rightarrow> Inr v
             | vs \<Rightarrow> Inr (PList vs))"
    using getitem_unmarshal [OF assms(1)] assms(2) by simp
  ultimately show ?thesis by simp
qed

theorem unmarshal_groups_children_by_tag_witness:
  "etext zone_three_rr = None \<and> children zone_three_rr \<noteq> [] \<and>
   unmarshal zone_three_rr =
     PDict [(''rr'', PList [PStr ''1'', PStr ''2'', PStr ''3'']), (''name'', PStr ''example.com'')] \<and>
   py_getitem (unmarshal zone_three_rr) ''rr'' = Inr (PList [PStr ''1'', PStr ''2'', PStr ''3'']) \<and>
   py_getitem (unmarshal zone_three_rr) ''name'' = Inr (PStr ''example.com'') \<and>
   py_getitem (unmarshal zone_three_rr) ''soa'' = Inl (KeyError ''soa'')"
proof -
  have h1: "etext zone_three_rr = None" by (simp add: zone_three_rr_def)
  have h2: "children zone_three_rr \<noteq> []" by (simp add: zone_three_rr_def)
  have g: "grouped (tagged (children zone_three_rr)) =
     [(''rr'', PList [PStr ''1'', PStr ''2'', PStr ''3'']), (''name'', PStr ''example.com'')]"
    by code_simp
  note t = unmarshal_groups_children_by_tag [OF h1 h2]
  have u: "unmarshal zone_three_rr =
     PDict [(''rr'', PList [PStr ''1'', PStr ''2'', PStr ''3'']), (''name'', PStr ''example.com'')]"
    using t g by simp
  show ?thesis using h1 h2 u by simp
qed

text \<open>
  C4 as stated fails for an element that has children and a text: the text is returned,
  and no Map is built.
\<close>

theorem unmarshal_text_hides_children:
  "unmarshal (Element ''zone'' (Some '' '') [Element ''rr'' (Some ''1'') [], Element ''rr'' (Some ''2'') []])
     = PStr '' ''"
  by code_simp

text \<open>
  C5 (amended).  Every value that \<open>unmarshal\<close> produces from a tree without empty texts
  is null, a non-empty Scalar, or a Map of at least one entry whose entries are such
  values or Lists of at least two such values.  It is null exactly for an element with no
  text and no children, and the enclosing Map holds that null under the child's tag as a
  present entry: the bare null, or an item of the List of that tag.
\<close>

theorem unmarshal_value_shape:
  assumes "no_empty_text e"
  shows "value_ok (unmarshal e) \<and>
         (unmarshal e = PNone \<longleftrightarrow> etext e = None \<and> children e = []) \<and>
         (\<forall>c\<in>set (children e). etext e = None \<and> unmarshal c = PNone \<longrightarrow>
            py_getitem (unmarshal e) (tag c) = Inr PNone \<or>
            (\<exists>xs. py_getitem (unmarshal e) (tag c) = Inr (PList xs) \<and> 2 \<le> length xs \<and> PNone \<in> set xs))"
proof -
  have "py_getitem (unmarshal e) (tag c) = Inr PNone \<or>
        (\<exists>xs. py_getitem (unmarshal e) (tag c) = Inr (PList xs) \<and> 2 \<le> length xs \<and> PNone \<in> set xs)"
    if c: "c \<in> set (children e)" and t: "etext e = None" and n: "unmarshal c = PNone" for c
  proof -
    let ?vs = "map unmarshal (filter (\<lambda>d. tag d = tag c) (children e))"
    have mem: "PNone \<in> set ?vs" using c n by force
    show ?thesis
    proof (cases ?vs)
      case Nil
      with mem show ?thesis by simp
    next
      case (Cons a as)
      show ?thesis
      proof (cases as)
        case Nil
        with Cons mem have "a = PNone" by simp
        with Cons Nil getitem_unmarshal [OF t, of "tag c"] show ?thesis by simp
      next
        case (Cons b bs)
        with \<open>?vs = a # as\<close> getitem_unmarshal [OF t, of "tag c"]
        have "py_getitem (unmarshal e) (tag c) = Inr (PList ?vs)" by simp
        moreover have "2 \<le> length ?vs" using Cons \<open>?vs = a # as\<close> by simp
        ultimately show ?thesis using mem by blast
      qed
    qed
  qed
  then show ?thesis
    using unmarshal_value_ok [OF assms] unmarshal_None_iff [of e] by blast
qed

theorem unmarshal_value_shape_witness:
  "no_empty_text zone_empty_rr \<and> value_ok (unmarshal zone_empty_rr) \<and>
   unmarshal zone_empty_rr \<noteq> PNone \<and>
   unmarshal (Element ''rr'' None []) = PNone \<and>
   py_getitem (unmarshal zone_empty_rr) ''rr'' = Inr PNone"
proof -
  have h: "no_empty_text zone_empty_rr" by (simp add: zone_empty_rr_def)
  have v: "value_ok (unmarshal zone_empty_rr)"
    using unmarshal_value_shape [OF h] by simp
  have r: "unmarshal zone_empty_rr \<noteq> PNone \<and>
   unmarshal (Element ''rr'' None []) = PNone \<and>
   py_getitem (unmarshal zone_empty_rr) ''rr'' = Inr PNone"
    by code_simp
  show ?thesis using h v r by simp
qed

text \<open>
  C5 as stated fails: the empty child \<^verbatim>\<open><rr/>\<close> is a key of the enclosing Map, with
  the value null.
\<close>

theorem unmarshal_empty_child_is_present_null:
  "py_getitem (unmarshal (Element ''zone'' None [Element ''rr'' None []])) ''rr'' = Inr PNone"
  by code_simp

section \<open>What marshal emits\<close>

lemma marshal_items_append:
  "marshal_items n (xs @ ys) =
     (case marshal_items n xs of
        Inl err \<Rightarrow> Inl err
      | Inr cs \<Rightarrow> (case marshal_items n ys of Inl err \<Rightarrow> Inl err | Inr cs' \<Rightarrow> Inr (cs @ cs')))"
  by (induction xs) (auto split: sum.splits)

lemma marshal_entries_append:
  "marshal_entries (a @ b) =
     (case marshal_entries a of
        Inl err \<Rightarrow> Inl err
      | Inr cs \<Rightarrow> (case marshal_entries b of Inl err \<Rightarrow> Inl err | Inr cs' \<Rightarrow> Inr (cs @ cs')))"
  by (induction a) (auto split: sum.splits)

lemma marshal_tags:
  "marshal_value n v = Inr cs \<Longrightarrow> c \<in> set cs \<Longrightarrow> tag c = n"
  "marshal_items n xs = Inr cs \<Longrightarrow> c \<in> set cs \<Longrightarrow> tag c = n"
  "marshal_entries d = Inr cs \<Longrightarrow> c \<in> set cs \<Longrightarrow> tag c \<in> fst ` set d"
  by (induction n v and n xs and d arbitrary: cs c and cs c and cs c
      rule: marshal_value_marshal_items_marshal_entries.induct)
     (auto split: sum.splits)

lemma marshal_items_concat:
  "\<forall>x\<in>set xs. marshal_value n x = Inr (el x) \<Longrightarrow> marshal_items n xs = Inr (concat (map el xs))"
  by (induction xs) auto

lemma marshal_entries_concat:
  "\<forall>nv\<in>set m. marshal_value (fst nv) (snd nv) = Inr (em nv) \<Longrightarrow>
   marshal_entries m = Inr (concat (map em m))"
  by (induction m) auto

lemma marshal_items_first_error:
  "\<forall>x\<in>set xs. \<exists>cs. marshal_value n x = Inr cs \<Longrightarrow> marshal_value n y = Inl err \<Longrightarrow>
   marshal_items n (xs @ y # ys) = Inl err"
  by (induction xs) auto

lemma marshal_entries_first_error:
  "\<forall>nv\<in>set m1. \<exists>cs. marshal_value (fst nv) (snd nv) = Inr cs \<Longrightarrow>
   marshal_value k v = Inl err \<Longrightarrow> marshal_entries (m1 @ (k, v) # m2) = Inl err"
  by (induction m1) auto

lemma marshal_value_one:
  "is_scalar v \<or> is_map v \<Longrightarrow> marshal_value n v = Inr cs \<Longrightarrow> length cs = Suc 0"
  by (cases v) (auto split: sum.splits)

lemma marshal_items_one_each:
  "\<forall>x\<in>set xs. is_scalar x \<or> is_map x \<Longrightarrow> marshal_items n xs = Inr cs \<Longrightarrow> length cs = length xs"
proof (induction xs arbitrary: cs)
  case Nil
  then show ?case by simp
next
  case (Cons x xs)
  from Cons.prems obtain c1 c2 where c1: "marshal_value n x = Inr c1"
    and c2: "marshal_items n xs = Inr c2" and cs: "cs = c1 @ c2"
    by (auto split: sum.splits)
  have "length c1 = Suc 0" using Cons.prems(1) c1 by (intro marshal_value_one [of x n]) simp_all
  moreover have "length c2 = length xs" using Cons.IH [OF _ c2] Cons.prems(1) by simp
  ultimately show ?case using cs by simp
qed

text \<open>
  C9 (amended).  For every Map entry (name, value), \<open>marshal\<close> emits: one child element
  with the scalar's string form as text when the value is a string, an integer or a float;
  no element when it is null; for a List the elements of its items, each encoded by the
  same rule, one after the other (one element per item when the items are scalars, Maps
  or objects); one recursively marshalled child element when it is a nested Map or an
  object with an attribute dictionary; the document holds the elements of all entries in
  the order of the Map.  For a value of any other shape marshalling fails with
  \<^verbatim>\<open>NotImplementedError\<close> naming the field and the value, and so does the marshalling
  of the List or Map that holds it.
\<close>

theorem marshal_value_by_shape:
  "marshal_value n PNone = Inr [] \<and>
   marshal_value n (PStr s) = Inr [Element n (Some s) []] \<and>
   marshal_value n (PInt i) = Inr [Element n (Some (str_int i)) []] \<and>
   marshal_value n (PFloat f) = Inr [Element n (Some f) []] \<and>
   ((\<forall>x\<in>set xs. marshal_value n x = Inr (el x)) \<longrightarrow>
      marshal_value n (PList xs) = Inr (concat (map el xs))) \<and>
   ((\<forall>x\<in>set xs. is_scalar x \<or> is_map x) \<and> marshal_value n (PList xs) = Inr cs \<longrightarrow>
      length cs = length xs) \<and>
   ((\<forall>x\<in>set xs. \<exists>cs. marshal_value n x = Inr cs) \<and> marshal_value n y = Inl err \<longrightarrow>
      marshal_value n (PList (xs @ y # ys)) = Inl err) \<and>
   (marshal n d = Inr e \<longrightarrow> marshal_value n (PDict d) = Inr [e] \<and> marshal_value n (PObj d) = Inr [e]) \<and>
   (marshal n d = Inl err \<longrightarrow> marshal_value n (PDict d) = Inl err \<and> marshal_value n (PObj d) = Inl err) \<and>
   marshal_value n (POther s) = Inl (NotImplementedError n s) \<and>
   ((\<forall>nv\<in>set m. marshal_value (fst nv) (snd nv) = Inr (em nv)) \<longrightarrow>
      marshal tg m = Inr (Element tg None (concat (map em m)))) \<and>
   ((\<forall>nv\<in>set m1. \<exists>cs. marshal_value (fst nv) (snd nv) = Inr cs) \<and> marshal_value k v = Inl err \<longrightarrow>
      marshal tg (m1 @ (k, v) # m2) = Inl err)"
proof -
  have l1: "(\<forall>x\<in>set xs. marshal_value n x = Inr (el x)) \<longrightarrow>
      marshal_value n (PList xs) = Inr (concat (map el xs))"
    by (simp add: marshal_items_concat)
  have l2: "(\<forall>x\<in>set xs. is_scalar x \<or> is_map x) \<and> marshal_value n (PList xs) = Inr cs \<longrightarrow>
      length cs = length xs"
    using marshal_items_one_each [of xs n cs] by simp
  have l3: "(\<forall>x\<in>set xs. \<exists>cs. marshal_value n x = Inr cs) \<and> marshal_value n y = Inl err \<longrightarrow>
      marshal_value n (PList (xs @ y # ys)) = Inl err"
    using marshal_items_first_error [of xs n y err ys] by simp
  have d1: "marshal n d = Inr e \<longrightarrow> marshal_value n (PDict d) = Inr [e] \<and> marshal_value n (PObj d) = Inr [e]"
    by (auto simp: marshal_def split: sum.splits)
  have d2: "marshal n d = Inl err \<longrightarrow> marshal_value n (PDict d) = Inl err \<and> marshal_value n (PObj d) = Inl err"
    by (auto simp: marshal_def split: sum.splits)
  have m1: "(\<forall>nv\<in>set m. marshal_value (fst nv) (snd nv) = Inr (em nv)) \<longrightarrow>
      marshal tg m = Inr (Element tg None (concat (map em m)))"
    using marshal_entries_concat [of m em] by (auto simp: marshal_def)
  have m2: "(\<forall>nv\<in>set m1. \<exists>cs. marshal_value (fst nv) (snd nv) = Inr cs) \<and> marshal_value k v = Inl err \<longrightarrow>
      marshal tg (m1 @ (k, v) # m2) = Inl err"
    using marshal_entries_first_error [of m1 k v err m2] by (simp add: marshal_def)
  show ?thesis
    using l1 l2 l3 d1 d2 m1 m2 by simp
qed

theorem marshal_value_by_shape_witness:
  "marshal ''rr_add'' rr_add_entries =
     Inr (Element ''rr_add'' None
            [Element ''name'' (Some ''_acme-challenge'') [], Element ''ttl'' (Some ''60'') [],
             Element ''value'' (Some ''a'') [], Element ''value'' (Some ''b'') []]) \<and>
   marshal ''rr_add'' (rr_add_entries @ (''when'', POther ''(1, 2)'') # rr_add_entries) =
     Inl (NotImplementedError ''when'' ''(1, 2)'')"
proof -
  have h: "\<forall>nv\<in>set rr_add_entries. marshal_value (fst nv) (snd nv) = Inr (emitted nv)"
    by (simp add: rr_add_entries_def emitted_def)
  have h2: "\<forall>nv\<in>set rr_add_entries. \<exists>cs. marshal_value (fst nv) (snd nv) = Inr cs"
    using h by blast
  have o: "marshal_value ''when'' (POther ''(1, 2)'') = Inl (NotImplementedError ''when'' ''(1, 2)'')"
    by simp
  have c: "concat (map emitted rr_add_entries) =
     [Element ''name'' (Some ''_acme-challenge'') [], Element ''ttl'' (Some ''60'') [],
      Element ''value'' (Some ''a'') [], Element ''value'' (Some ''b'') []]"
    by code_simp
  note t = marshal_value_by_shape [where m = rr_add_entries and em = emitted and ?m1.0 = rr_add_entries
      and k = "''when''" and v = "POther ''(1, 2)''" and err = "NotImplementedError ''when'' ''(1, 2)''"
      and tg = "''rr_add''" and ?m2.0 = rr_add_entries]
  show ?thesis using t h h2 o c by simp
qed

text \<open>
  C9 as stated fails for an object that has a \<^verbatim>\<open>__dict__\<close>: it is neither a scalar,
  null, a List nor a Map, and it is marshalled like the Map of its attributes.
\<close>

theorem marshal_object_is_not_an_error:
  "marshal ''x'' [(''a'', PObj [(''b'', PStr ''c'')])] =
     Inr (Element ''x'' None [Element ''a'' None [Element ''b'' (Some ''c'') []]])"
  by code_simp

lemma tagged_keys: "fst ` set (tagged cs) = tag ` set cs"
  by (auto simp: tagged_def image_iff)

lemma getitem_unmarshal_absent:
  assumes "k \<notin> tag ` set cs"
  shows "py_getitem (unmarshal (Element tg None cs)) k = (if cs = [] then Inl TypeError else Inl (KeyError k))"
  using assms by (simp add: unmarshal_grouped map_of_grouped tagged_keys del: unmarshal.simps)

text \<open>
  C10.  For every tag and every Map with an entry whose value is the empty List,
  \<open>marshal\<close> emits no element for that entry: the document is the one of the Map with
  null in place of the empty List, and the one of the Map without the entry; when the
  keys of the Map are unique, what \<open>unmarshal\<close> returns for the document has no field
  of that name.
\<close>

theorem marshal_empty_list_field:
  "marshal_value k (PList []) = Inr [] \<and>
   marshal tg (m1 @ (k, PList []) # m2) = marshal tg (m1 @ (k, PNone) # m2) \<and>
   marshal tg (m1 @ (k, PList []) # m2) = marshal tg (m1 @ m2) \<and>
   (distinct (map fst (m1 @ (k, PList []) # m2)) \<and> marshal tg (m1 @ (k, PList []) # m2) = Inr e \<longrightarrow>
      (\<forall>v. py_getitem (unmarshal e) k \<noteq> Inr v))"
proof -
  have a: "marshal tg (m1 @ (k, PList []) # m2) = marshal tg (m1 @ m2)"
    by (simp add: marshal_def marshal_entries_append split: sum.splits)
  have b: "marshal tg (m1 @ (k, PNone) # m2) = marshal tg (m1 @ m2)"
    by (simp add: marshal_def marshal_entries_append split: sum.splits)
  have c: "\<forall>v. py_getitem (unmarshal e) k \<noteq> Inr v"
    if d: "distinct (map fst (m1 @ (k, PList []) # m2))"
      and m: "marshal tg (m1 @ (k, PList []) # m2) = Inr e"
  proof -
    from m a obtain cs where cs: "marshal_entries (m1 @ m2) = Inr cs" and e: "e = Element tg None cs"
      by (auto simp: marshal_def split: sum.splits)
    have "k \<notin> fst ` set (m1 @ m2)" using d by auto
    with marshal_tags(3) [OF cs] have "k \<notin> tag ` set cs" by blast
    with e show ?thesis by (simp add: getitem_unmarshal_absent del: unmarshal.simps)
  qed
  show ?thesis using a b c by simp
qed

theorem marshal_empty_list_field_witness:
  "distinct (map fst ([(''name'', PStr ''n'')] @ (''rr'', PList []) # [(''soa'', PStr ''s'')])) \<and>
   marshal ''zone'' ([(''name'', PStr ''n'')] @ (''rr'', PList []) # [(''soa'', PStr ''s'')]) =
     Inr (Element ''zone'' None [Element ''name'' (Some ''n'') [], Element ''soa'' (Some ''s'') []]) \<and>
   py_getitem (unmarshal (Element ''zone'' None [Element ''name'' (Some ''n'') [], Element ''soa'' (Some ''s'') []])) ''rr''
     \<noteq> Inr (PList [])"
proof -
  let ?m = "[(''name'', PStr ''n'')] @ (''rr'', PList []) # [(''soa'', PStr ''s'')]"
  let ?e = "Element ''zone'' None [Element ''name'' (Some ''n'') [], Element ''soa'' (Some ''s'') []]"
  have d: "distinct (map fst ?m)" by simp
  have m: "marshal ''zone'' ?m = Inr ?e" by (simp add: marshal_def)
  from marshal_empty_list_field [where ?m1.0 = "[(''name'', PStr ''n'')]" and k = "''rr''"
      and ?m2.0 = "[(''soa'', PStr ''s'')]" and tg = "''zone''" and e = ?e] d m
  have "py_getitem (unmarshal ?e) ''rr'' \<noteq> Inr (PList [])" by blast
  with d m show ?thesis by blast
qed

section \<open>Unmarshalling a marshalled Map\<close>

lemma unmarshal_as_value: "unmarshal (Element tg None cs) = as_value (grouped (tagged cs))"
  by (simp add: unmarshal_grouped as_value_def grouped_Nil_iff tagged_def del: unmarshal.simps)

lemma remdups_append_disjoint:
  "set xs \<inter> set ys = {} \<Longrightarrow> remdups (xs @ ys) = remdups xs @ remdups ys"
  by (induction xs) auto

lemma first_occ_append_disjoint:
  "set xs \<inter> set ys = {} \<Longrightarrow> first_occ (xs @ ys) = first_occ xs @ first_occ ys"
proof -
  assume "set xs \<inter> set ys = {}"
  then have "set (rev ys) \<inter> set (rev xs) = {}" by auto
  then have "remdups (rev ys @ rev xs) = remdups (rev ys) @ remdups (rev xs)"
    by (rule remdups_append_disjoint)
  then show ?thesis by (simp add: first_occ_def)
qed

lemma values_of_append: "values_of t (a @ b) = values_of t a @ values_of t b"
  by (simp add: values_of_def)

lemma grouped_append_disjoint:
  assumes "fst ` set a \<inter> fst ` set b = {}"
  shows "grouped (a @ b) = grouped a @ grouped b"
proof -
  have 1: "map (\<lambda>t. (t, collapse (values_of t (a @ b)))) (first_occ (map fst a)) = grouped a"
    unfolding grouped_def
  proof (intro map_cong refl)
    fix t assume "t \<in> set (first_occ (map fst a))"
    then have "t \<notin> fst ` set b" using assms by auto
    then have "values_of t b = []" by (simp add: values_of_empty)
    then show "(t, collapse (values_of t (a @ b))) = (t, collapse (values_of t a))"
      by (simp add: values_of_append)
  qed
  have 2: "map (\<lambda>t. (t, collapse (values_of t (a @ b)))) (first_occ (map fst b)) = grouped b"
    unfolding grouped_def
  proof (intro map_cong refl)
    fix t assume "t \<in> set (first_occ (map fst b))"
    then have "t \<notin> fst ` set a" using assms by auto
    then have "values_of t a = []" by (simp add: values_of_empty)
    then show "(t, collapse (values_of t (a @ b))) = (t, collapse (values_of t b))"
      by (simp add: values_of_append)
  qed
  have "first_occ (map fst (a @ b)) = first_occ (map fst a) @ first_occ (map fst b)"
    using assms by (simp add: first_occ_append_disjoint)
  then have "grouped (a @ b) =
      map (\<lambda>t. (t, collapse (values_of t (a @ b)))) (first_occ (map fst a)) @
      map (\<lambda>t. (t, collapse (values_of t (a @ b)))) (first_occ (map fst b))"
    by (simp add: grouped_def)
  with 1 2 show ?thesis by simp
qed

lemma first_occ_singleton:
  assumes "ks \<noteq> []" and "\<forall>k\<in>set ks. k = n"
  shows "first_occ ks = [n]"
proof -
  have s: "set (first_occ ks) = {n}" using assms by (cases ks) auto
  have d: "distinct (first_occ ks)" by simp
  show ?thesis
  proof (cases "first_occ ks")
    case Nil
    with s show ?thesis by simp
  next
    case (Cons a as)
    with s d have "a = n" and "set as \<subseteq> {n}" and "a \<notin> set as" by auto
    then have "as = []" by (cases as) auto
    with Cons \<open>a = n\<close> show ?thesis by simp
  qed
qed

lemma grouped_same_key:
  assumes "\<forall>nv\<in>set a. fst nv = n"
  shows "grouped a = (case map snd a of [] \<Rightarrow> [] | vs \<Rightarrow> [(n, collapse vs)])"
proof (cases a)
  case Nil
  then show ?thesis by (simp add: grouped_def)
next
  case (Cons x xs)
  have f: "first_occ (map fst a) = [n]"
    using assms Cons by (intro first_occ_singleton) auto
  have "filter (\<lambda>nv. fst nv = n) a = a" using assms by (simp add: filter_id_conv)
  then have v: "values_of n a = map snd a" by (simp add: values_of_def)
  show ?thesis using f v Cons by (simp add: grouped_def)
qed

lemma tagged_append: "tagged (a @ b) = tagged a @ tagged b"
  by (simp add: tagged_def)

lemma roundtrip:
  "unique_keys v \<Longrightarrow> marshal_value n v = Inr cs \<Longrightarrow> map unmarshal cs = images v"
  "unique_keys_list xs \<Longrightarrow> marshal_items n xs = Inr cs \<Longrightarrow> map unmarshal cs = images_list xs"
  "distinct (map fst d) \<Longrightarrow> unique_keys_entries d \<Longrightarrow> marshal_entries d = Inr cs \<Longrightarrow>
     grouped (tagged cs) = image_entries d"
proof (induction n v and n xs and d arbitrary: cs and cs and cs
       rule: marshal_value_marshal_items_marshal_entries.induct)
  case (6 tg d)
  then show ?case
    by (auto simp: unmarshal_as_value simp del: unmarshal.simps split: sum.splits)
next
  case (7 tg d)
  then show ?case
    by (auto simp: unmarshal_as_value simp del: unmarshal.simps split: sum.splits)
next
  case (10 tg x xs)
  then show ?case by (auto split: sum.splits)
next
  case (12 nv d)
  from "12.prems"(3) obtain c1 c2 where c1: "marshal_value (fst nv) (snd nv) = Inr c1"
    and c2: "marshal_entries d = Inr c2" and cs: "cs = c1 @ c2"
    by (auto split: sum.splits)
  have i1: "map unmarshal c1 = images (snd nv)"
    using "12.IH"(1) [OF _ c1] "12.prems"(2) by simp
  have i2: "grouped (tagged c2) = image_entries d"
    using "12.IH"(2) [OF c1 _ _ c2] "12.prems"(1,2) by simp
  have t1: "\<forall>p\<in>set (tagged c1). fst p = fst nv"
    using marshal_tags(1) [OF c1] by (auto simp: tagged_def)
  have "fst ` set (tagged c2) \<subseteq> fst ` set d"
    using marshal_tags(3) [OF c2] by (auto simp: tagged_def)
  moreover have "fst nv \<notin> fst ` set d" using "12.prems"(1) by auto
  ultimately have dis: "fst ` set (tagged c1) \<inter> fst ` set (tagged c2) = {}"
    using t1 by auto
  have s: "map snd (tagged c1) = map unmarshal c1" by (simp add: tagged_def comp_def)
  have "grouped (tagged cs) = grouped (tagged c1) @ grouped (tagged c2)"
    using cs dis by (simp add: tagged_append grouped_append_disjoint)
  also have "grouped (tagged c1) =
      (case images (snd nv) of [] \<Rightarrow> [] | vs \<Rightarrow> [(fst nv, collapse vs)])"
    using grouped_same_key [OF t1] s i1 by simp
  finally show ?case using i2 by (simp split: list.splits)
qed (simp_all add: grouped_def tagged_def)

lemma image_entries_keys: "fst ` set (image_entries m) \<subseteq> fst ` set m"
  by (induction m) (auto split: list.splits)

lemma map_of_image_entries:
  "distinct (map fst m) \<Longrightarrow> (k, v) \<in> set m \<Longrightarrow>
   map_of (image_entries m) k = (if images v = [] then None else Some (collapse (images v)))"
proof (induction m)
  case Nil
  then show ?case by simp
next
  case (Cons nv m)
  show ?case
  proof (cases "nv = (k, v)")
    case True
    have "k \<notin> fst ` set m" using Cons.prems(1) True by auto
    then have "k \<notin> fst ` set (image_entries m)" using image_entries_keys by blast
    then have "map_of (image_entries m) k = None" by (simp add: map_of_eq_None_iff)
    with True show ?thesis by (simp split: list.splits)
  next
    case False
    with Cons.prems have kv: "(k, v) \<in> set m" by auto
    then have "k \<in> fst ` set m" by force
    then have "fst nv \<noteq> k" using Cons.prems(1) by auto
    moreover have "map_of (image_entries m) k =
        (if images v = [] then None else Some (collapse (images v)))"
      using Cons.IH [OF _ kv] Cons.prems(1) by simp
    ultimately show ?thesis by (simp split: list.splits)
  qed
qed

text \<open>
  C7 (amended).  For every root tag and every Map \<open>m\<close> of marshallable values with unique
  keys, \<open>unmarshal (marshal tag m)\<close> is the image of \<open>m\<close>: it holds, in the order of
  \<open>m\<close>, the fields of \<open>m\<close> whose value emits at least one element, each with the
  collapsed list of its images (the bare image if there is one, the List if there are
  several), and no field for a value that emits no element (null, the empty List, a List
  of such values); it is null when no field emits an element.  In particular for every
  string or integer \<open>v\<close>, \<open>unmarshal (marshal ''x'' {''a'': v})\<close> is the Map whose field
  \<open>a\<close> is the string form of \<open>v\<close>.
\<close>

theorem unmarshal_marshal_image:
  "(distinct (map fst m) \<and> unique_keys_entries m \<and> marshal tg m = Inr e \<longrightarrow>
      unmarshal e = as_value (image_entries m) \<and>
      (\<forall>k v. (k, v) \<in> set m \<and> images v \<noteq> [] \<longrightarrow>
         py_getitem (unmarshal e) k = Inr (collapse (images v))) \<and>
      (\<forall>k v x. (k, v) \<in> set m \<and> images v = [] \<longrightarrow> py_getitem (unmarshal e) k \<noteq> Inr x)) \<and>
   (\<exists>e'. marshal ''x'' [(''a'', PStr s)] = Inr e' \<and> unmarshal e' = PDict [(''a'', PStr s)]) \<and>
   (\<exists>e'. marshal ''x'' [(''a'', PInt i)] = Inr e' \<and> unmarshal e' = PDict [(''a'', PStr (str_int i))])"
proof -
  have gen: "unmarshal e = as_value (image_entries m) \<and>
      (\<forall>k v. (k, v) \<in> set m \<and> images v \<noteq> [] \<longrightarrow>
         py_getitem (unmarshal e) k = Inr (collapse (images v))) \<and>
      (\<forall>k v x. (k, v) \<in> set m \<and> images v = [] \<longrightarrow> py_getitem (unmarshal e) k \<noteq> Inr x)"
    if d: "distinct (map fst m)" and u: "unique_keys_entries m" and m: "marshal tg m = Inr e"
  proof -
    from m obtain cs where cs: "marshal_entries m = Inr cs" and e: "e = Element tg None cs"
      by (auto simp: marshal_def split: sum.splits)
    have img: "unmarshal e = as_value (image_entries m)"
      using roundtrip(3) [OF d u cs] e by (simp add: unmarshal_as_value del: unmarshal.simps)
    have "py_getitem (as_value (image_entries m)) k = Inr (collapse (images v))"
      if "(k, v) \<in> set m" and "images v \<noteq> []" for k v
    proof -
      have "map_of (image_entries m) k = Some (collapse (images v))"
        using map_of_image_entries [OF d that(1)] that(2) by simp
      moreover from this have "image_entries m \<noteq> []" by auto
      ultimately show ?thesis by (simp add: as_value_def)
    qed
    moreover have "py_getitem (as_value (image_entries m)) k \<noteq> Inr x"
      if "(k, v) \<in> set m" and "images v = []" for k v x
    proof -
      have "map_of (image_entries m) k = None"
        using map_of_image_entries [OF d that(1)] that(2) by simp
      then show ?thesis by (simp add: as_value_def)
    qed
    ultimately show ?thesis unfolding img by blast
  qed
  have s: "\<exists>e'. marshal ''x'' [(''a'', PStr s)] = Inr e' \<and> unmarshal e' = PDict [(''a'', PStr s)]"
    by (simp add: marshal_def add_child_def)
  have i: "\<exists>e'. marshal ''x'' [(''a'', PInt i)] = Inr e' \<and> unmarshal e' = PDict [(''a'', PStr (str_int i))]"
    by (simp add: marshal_def add_child_def)
  show ?thesis using gen s i by blast
qed

theorem unmarshal_marshal_image_witness:
  "distinct (map fst zone_map) \<and> unique_keys_entries zone_map \<and>
   marshal ''zone'' zone_map = Inr zone_doc \<and>
   unmarshal zone_doc =
     PDict [(''name'', PStr ''example.com''), (''ttl'', PStr ''60''),
            (''rr'', PList [PDict [(''name'', PStr ''a'')], PDict [(''name'', PStr ''b'')]]),
            (''ns'', PStr ''a.ns.de''), (''soa'', PNone)]"
proof -
  have d: "distinct (map fst zone_map)" by (simp add: zone_map_def)
  have u: "unique_keys_entries zone_map" by (simp add: zone_map_def)
  have m: "marshal ''zone'' zone_map = Inr zone_doc" by code_simp
  have i: "as_value (image_entries zone_map) =
     PDict [(''name'', PStr ''example.com''), (''ttl'', PStr ''60''),
            (''rr'', PList [PDict [(''name'', PStr ''a'')], PDict [(''name'', PStr ''b'')]]),
            (''ns'', PStr ''a.ns.de''), (''soa'', PNone)]"
    by code_simp
  from unmarshal_marshal_image [of zone_map "''zone''" zone_doc] d u m
  have "unmarshal zone_doc = as_value (image_entries zone_map)" by blast
  with d u m i show ?thesis by simp
qed

text \<open>
  C7 as stated fails for a field whose value is the empty List: it is not null, and it
  is not a field of the unmarshalled document.
\<close>

theorem unmarshal_marshal_drops_empty_list:
  "marshal ''x'' [(''a'', PList []), (''b'', PStr ''v'')] =
     Inr (Element ''x'' None [Element ''b'' (Some ''v'') []]) \<and>
   unmarshal (Element ''x'' None [Element ''b'' (Some ''v'') []]) = PDict [(''b'', PStr ''v'')]"
  by code_simp

section \<open>Conflicts and refused updates with well-formed replies\<close>

lemma log_call_error_task:
  "\<exists>w'. log_call_error [(''auth'', a), (''language'', l), (''task'', task)] response err w = (Inr (), w')"
  by (simp add: log_call_error_def Let_def)

lemma call_Inr:
  assumes "call c gw task w = (Inr result, w1)"
  shows "w1 = w\<lparr>calls := calls w @ [task]\<rparr> \<and> result \<noteq> PNone"
  using assms
  by (simp add: call_def Let_def split: sum.splits reply.splits if_splits prod.splits)

lemma zone_info_Inr:
  assumes "zone_info c gw domain w = (Inr zone, w1)"
  shows "w1 = w\<lparr>calls := calls w @ [zone_task domain]\<rparr>"
  using assms
  by (auto simp: zone_info_def Let_def split: prod.splits sum.splits if_splits dest: call_Inr)

lemma scan_rr_conflict:
  assumes "\<forall>r\<in>set rrs. is_resource_record r"
    and "\<exists>r\<in>set rrs. py_getitem r ''name'' = Inr (PStr pre) \<and>
           py_getitem r ''value'' \<noteq> Inr (PStr validation)"
  shows "\<exists>v. scan_rr rrs pre validation = Inr (PStr v) \<and> v \<noteq> validation"
  using assms
proof (induction rrs)
  case Nil
  then show ?case by simp
next
  case (Cons r rrs)
  from Cons.prems(1) obtain d n v where r: "r = PDict d"
    and n: "map_of d ''name'' = Some (PStr n)" and v: "map_of d ''value'' = Some (PStr v)"
    by (cases r) (auto split: option.splits pyval.splits)
  show ?case
  proof (cases "n = pre \<and> v \<noteq> validation")
    case True
    with r n v show ?thesis by simp
  next
    case False
    with r n v Cons.prems(2)
    have "\<exists>r\<in>set rrs. py_getitem r ''name'' = Inr (PStr pre) \<and>
           py_getitem r ''value'' \<noteq> Inr (PStr validation)"
      by auto
    with Cons.IH Cons.prems(1)
    have "\<exists>v. scan_rr rrs pre validation = Inr (PStr v) \<and> v \<noteq> validation" by simp
    with False r n v show ?thesis by auto
  qed
qed

lemma current_value_conflict:
  assumes "map_of z ''rr'' = Some rr"
    and "\<forall>r\<in>set (records rr). is_resource_record r"
    and "\<exists>r\<in>set (records rr).
           py_getitem r ''name'' = Inr (PStr (strip_domain domain validation_name)) \<and>
           py_getitem r ''value'' \<noteq> Inr (PStr validation)"
  shows "\<exists>v info. current_value (PDict z) domain validation_name validation = Inr (PStr v, info) \<and>
           v \<noteq> validation"
proof -
  have k: "''rr'' \<in> fst ` set z" using assms(1) by (metis map_of_eq_None_iff option.distinct(1))
  from scan_rr_conflict [OF assms(2,3)] obtain v
    where v: "scan_rr (records rr) (strip_domain domain validation_name) validation = Inr (PStr v)"
      and ne: "v \<noteq> validation" by blast
  show ?thesis
    using k assms(1) v ne
    by (cases rr) (auto simp: current_value_def Let_def records_def)
qed

text \<open>
  Where every record of the zone is a Map with a string \<open>name\<close> and a string
  \<open>value\<close>, the conflict is detected: if one of the records has the relative name
  \<open>strip_domain domain validation_name\<close> and a value other than the given one, then
  \<open>add_txt_record\<close> fails with the \<^verbatim>\<open>PluginError\<close> ``already exists with different
  value'', and the zone query is the only task it has sent.
\<close>

lemma add_txt_record_conflict:
  assumes "zone_info c gw domain w = (Inr (PDict z), w1)"
    and "map_of z ''rr'' = Some rr"
    and "\<forall>r\<in>set (records rr). is_resource_record r"
    and "\<exists>r\<in>set (records rr).
           py_getitem r ''name'' = Inr (PStr (strip_domain domain validation_name)) \<and>
           py_getitem r ''value'' \<noteq> Inr (PStr validation)"
  shows "\<exists>w2. add_txt_record c gw domain validation_name validation w =
           (Inl (PluginError (''TXT record '' @ validation_name @ '' for '' @ domain @
                   '' already exists with different value'') None), w2) \<and>
           calls w2 = calls w @ [zone_task domain]"
proof -
  from current_value_conflict [OF assms(2,3,4)] obtain v info
    where cv: "current_value (PDict z) domain validation_name validation = Inr (PStr v, info)"
      and ne: "v \<noteq> validation" by blast
  have w1: "w1 = w\<lparr>calls := calls w @ [zone_task domain]\<rparr>"
    using zone_info_Inr [OF assms(1)] .
  show ?thesis
    using assms(1) cv ne w1 by (simp add: add_txt_record_def debug_def)
qed

lemma add_txt_record_conflict_example:
  "zone_info example_client gw_other_value ''example.com'' fresh =
     (Inr (PDict zone_other_value), \<lparr>calls = [zone_task ''example.com''], logs = []\<rparr>) \<and>
   fst (add_txt_record example_client gw_other_value ''example.com''
          ''_acme-challenge.example.com'' ''TOKEN'' fresh) =
     Inl (PluginError
       ''TXT record _acme-challenge.example.com for example.com already exists with different value''
       None) \<and>
   calls (snd (add_txt_record example_client gw_other_value ''example.com''
          ''_acme-challenge.example.com'' ''TOKEN'' fresh)) = [zone_task ''example.com'']"
proof -
  let ?rr = "PList
         [PDict [(''name'', PStr ''www''), (''type'', PStr ''TXT''), (''value'', PStr ''x''),
                 (''ttl'', PStr ''60'')],
          PDict [(''name'', PStr ''_acme-challenge''), (''type'', PStr ''TXT''),
                 (''value'', PStr ''OLD''), (''ttl'', PStr ''60'')]]"
  have z: "zone_info example_client gw_other_value ''example.com'' fresh =
     (Inr (PDict zone_other_value), \<lparr>calls = [zone_task ''example.com''], logs = []\<rparr>)"
    by code_simp
  have r: "map_of zone_other_value ''rr'' = Some ?rr"
    by (simp add: zone_other_value_def)
  have s: "strip_domain ''example.com'' ''_acme-challenge.example.com'' = ''_acme-challenge''"
    by code_simp
  have wf: "\<forall>r\<in>set (records ?rr). is_resource_record r"
    by (simp add: records_def)
  have ex: "\<exists>r\<in>set (records ?rr).
           py_getitem r ''name'' = Inr (PStr (strip_domain ''example.com'' ''_acme-challenge.example.com'')) \<and>
           py_getitem r ''value'' \<noteq> Inr (PStr ''TOKEN'')"
    by (simp add: records_def s)
  from add_txt_record_conflict [OF z r wf ex]
  obtain w2 where "add_txt_record example_client gw_other_value ''example.com''
          ''_acme-challenge.example.com'' ''TOKEN'' fresh =
           (Inl (PluginError (''TXT record '' @ ''_acme-challenge.example.com'' @ '' for '' @
                   ''example.com'' @ '' already exists with different value'') None), w2)"
    and "calls w2 = calls fresh @ [zone_task ''example.com'']"
    by blast
  then show ?thesis using z by (simp add: fresh_def)
qed

lemma check_update_failure:
  assumes "failure_status result st"
  shows "\<exists>w'. check_update doing do domain validation_name result w =
           (Inl (PluginError (''Unable to '' @ do @ '' TXT record for '' @ domain @ '': '' @
                   validation_name @ status_text st) None), w') \<and> calls w' = calls w"
proof -
  from assms obtain d where res: "result = PDict d" and st: "map_of d ''status'' = Some (PDict st)"
    by (cases result) (auto simp: failure_status_def split: option.splits)
  from assms obtain t where t: "map_of st ''type'' = Some t" and ne: "t \<noteq> PStr ''success''"
    by (auto simp: failure_status_def split: option.splits)
  have tx: "map_of st ''text'' = None \<or> (\<exists>s. map_of st ''text'' = Some (PStr s))"
    using assms by (auto simp: failure_status_def split: option.splits pyval.splits)
  have msg: "status_msg result = Inr (status_text st)"
  proof (cases "map_of st ''text''")
    case None
    then have "''text'' \<notin> fst ` set st" by (simp add: map_of_eq_None_iff)
    with None res st show ?thesis
      by (simp add: status_msg_def status_text_def)
  next
    case (Some x)
    then have "''text'' \<in> fst ` set st" by (metis map_of_eq_None_iff option.distinct(1))
    moreover from Some tx obtain s where "x = PStr s" by auto
    ultimately show ?thesis using Some res st
      by (simp add: status_msg_def status_text_def py_getitem2_def)
  qed
  show ?thesis
    using res st t ne msg
    by (simp add: check_update_def py_getitem2_def Let_def debug_def)
qed

text \<open>
  Where the status of the result of the zone update is a Map whose \<open>type\<close> is not
  \<^verbatim>\<open>success\<close> and whose \<open>text\<close> is missing or a string, \<open>add_txt_record\<close> and
  \<open>del_txt_record\<close> fail with the \<^verbatim>\<open>PluginError\<close> ``Unable to add (remove) TXT
  record'', whose message ends with the status text on a line of its own when there is
  one.
\<close>

lemma update_failure_raises_PluginError:
  "(zone_info c gw domain w = (Inr info0, w1) \<and>
    current_value info0 domain validation_name validation = Inr (PNone, info) \<and>
    py_getitem info ''system_ns'' = Inr system_ns \<and>
    py_getitem info ''soa'' = Inr soa \<and>
    call c gw (add_task c domain validation_name validation system_ns soa) w1 = (Inr result, w2) \<and>
    failure_status result st \<longrightarrow>
      (\<exists>w3. add_txt_record c gw domain validation_name validation w =
         (Inl (PluginError (''Unable to add TXT record for '' @ domain @ '': '' @ validation_name @
                 status_text st) None), w3))) \<and>
   (zone_info c gw domain w = (Inr info0, w1) \<and>
    py_getitem info0 ''system_ns'' = Inr system_ns \<and>
    call c gw (del_task c domain validation_name validation system_ns) w1 = (Inr result, w2) \<and>
    failure_status result st \<longrightarrow>
      (\<exists>w3. del_txt_record c gw domain validation_name validation w =
         (Inl (PluginError (''Unable to remove TXT record for '' @ domain @ '': '' @ validation_name @
                 status_text st) None), w3))) \<and>
   (map_of st ''text'' = Some (PStr s) \<longrightarrow> status_text st = CHR 0x0A # s) \<and>
   (map_of st ''text'' = None \<longrightarrow> status_text st = [])"
proof -
  have a: "\<exists>w3. add_txt_record c gw domain validation_name validation w =
         (Inl (PluginError (''Unable to add TXT record for '' @ domain @ '': '' @ validation_name @
                 status_text st) None), w3)"
    if "zone_info c gw domain w = (Inr info0, w1)"
      and "current_value info0 domain validation_name validation = Inr (PNone, info)"
      and "py_getitem info ''system_ns'' = Inr system_ns"
      and "py_getitem info ''soa'' = Inr soa"
      and "call c gw (add_task c domain validation_name validation system_ns soa) w1 = (Inr result, w2)"
      and f: "failure_status result st"
  proof -
    from check_update_failure [OF f, of "''adding''" "''add''" domain validation_name w2]
    obtain w' where "check_update ''adding'' ''add'' domain validation_name result w2 =
           (Inl (PluginError (''Unable to '' @ ''add'' @ '' TXT record for '' @ domain @ '': '' @
                   validation_name @ status_text st) None), w')" by blast
    with that(1-5) show ?thesis by (simp add: add_txt_record_def)
  qed
  have b: "\<exists>w3. del_txt_record c gw domain validation_name validation w =
         (Inl (PluginError (''Unable to remove TXT record for '' @ domain @ '': '' @ validation_name @
                 status_text st) None), w3)"
    if "zone_info c gw domain w = (Inr info0, w1)"
      and "py_getitem info0 ''system_ns'' = Inr system_ns"
      and "call c gw (del_task c domain validation_name validation system_ns) w1 = (Inr result, w2)"
      and f: "failure_status result st"
  proof -
    from check_update_failure [OF f, of "''removing''" "''remove''" domain validation_name w2]
    obtain w' where "check_update ''removing'' ''remove'' domain validation_name result w2 =
           (Inl (PluginError (''Unable to '' @ ''remove'' @ '' TXT record for '' @ domain @ '': '' @
                   validation_name @ status_text st) None), w')" by blast
    with that(1-3) show ?thesis by (simp add: del_txt_record_def)
  qed
  have c: "map_of st ''text'' = Some (PStr s) \<longrightarrow> status_text st = CHR 0x0A # s"
    by (simp add: status_text_def)
  have d: "map_of st ''text'' = None \<longrightarrow> status_text st = []"
    by (simp add: status_text_def)
  show ?thesis using a b c d by blast
qed

lemma update_failure_raises_PluginError_example:
  "zone_info example_client gw_quota ''example.com'' fresh = (Inr zone_plain, after_zone_query) \<and>
   failure_status (PDict [(''status'', PDict quota_status)]) quota_status \<and>
   fst (add_txt_record example_client gw_quota ''example.com'' ''_acme-challenge.example.com''
          ''TOKEN'' fresh) =
     Inl (PluginError (''Unable to add TXT record for example.com: _acme-challenge.example.com'' @
            [CHR 0x0A] @ ''Quota exceeded'') None) \<and>
   fst (del_txt_record example_client gw_quota ''example.com'' ''_acme-challenge.example.com''
          ''TOKEN'' fresh) =
     Inl (PluginError (''Unable to remove TXT record for example.com: _acme-challenge.example.com'' @
            [CHR 0x0A] @ ''Quota exceeded'') None)"
proof -
  let ?result = "PDict [(''status'', PDict quota_status)]"
  let ?soa = "PDict [(''level'', PStr ''1'')]"
  have z: "zone_info example_client gw_quota ''example.com'' fresh = (Inr zone_plain, after_zone_query)"
    by code_simp
  have cv: "current_value zone_plain ''example.com'' ''_acme-challenge.example.com'' ''TOKEN'' =
      Inr (PNone, zone_plain)"
    by code_simp
  have ns: "py_getitem zone_plain ''system_ns'' = Inr (PStr ''a.ns.de'')"
    by (simp add: zone_plain_def)
  have soa: "py_getitem zone_plain ''soa'' = Inr ?soa"
    by (simp add: zone_plain_def)
  let ?add = "call example_client gw_quota
      (add_task example_client ''example.com'' ''_acme-challenge.example.com'' ''TOKEN''
         (PStr ''a.ns.de'') ?soa) after_zone_query"
  let ?del = "call example_client gw_quota
      (del_task example_client ''example.com'' ''_acme-challenge.example.com'' ''TOKEN''
         (PStr ''a.ns.de'')) after_zone_query"
  have "fst ?add = Inr ?result" by code_simp
  then have ca': "?add = (Inr ?result, snd ?add)" by (simp add: prod_eq_iff)
  have "fst ?del = Inr ?result" by code_simp
  then have cd': "?del = (Inr ?result, snd ?del)" by (simp add: prod_eq_iff)
  have f: "failure_status ?result quota_status"
    by (simp add: failure_status_def quota_status_def)
  have t: "status_text quota_status = CHR 0x0A # ''Quota exceeded''"
    by (simp add: status_text_def quota_status_def)
  from update_failure_raises_PluginError [of example_client gw_quota "''example.com''" fresh
      zone_plain after_zone_query "''_acme-challenge.example.com''" "''TOKEN''" zone_plain
      "PStr ''a.ns.de''" ?soa ?result "snd ?add" quota_status]
    z cv ns soa ca' f
  have a: "\<exists>w3. add_txt_record example_client gw_quota ''example.com''
      ''_acme-challenge.example.com'' ''TOKEN'' fresh =
         (Inl (PluginError (''Unable to add TXT record for '' @ ''example.com'' @ '': '' @
                 ''_acme-challenge.example.com'' @ status_text quota_status) None), w3)"
    by blast
  from update_failure_raises_PluginError [of example_client gw_quota "''example.com''" fresh
      zone_plain after_zone_query "''_acme-challenge.example.com''" "''TOKEN''" zone_plain
      "PStr ''a.ns.de''" ?soa ?result "snd ?del" quota_status]
    z ns cd' f
  have d: "\<exists>w3. del_txt_record example_client gw_quota ''example.com''
      ''_acme-challenge.example.com'' ''TOKEN'' fresh =
         (Inl (PluginError (''Unable to remove TXT record for '' @ ''example.com'' @ '': '' @
                 ''_acme-challenge.example.com'' @ status_text quota_status) None), w3)"
    by blast
  from a t have a': "fst (add_txt_record example_client gw_quota ''example.com''
      ''_acme-challenge.example.com'' ''TOKEN'' fresh) =
     Inl (PluginError (''Unable to add TXT record for example.com: _acme-challenge.example.com'' @
            [CHR 0x0A] @ ''Quota exceeded'') None)"
    by auto
  from d t have d': "fst (del_txt_record example_client gw_quota ''example.com''
      ''_acme-challenge.example.com'' ''TOKEN'' fresh) =
     Inl (PluginError (''Unable to remove TXT record for example.com: _acme-challenge.example.com'' @
            [CHR 0x0A] @ ''Quota exceeded'') None)"
    by auto
  show ?thesis using z f a' d' by simp
qed

end
